theory Spec2Isabelle
  imports Complex_Main
begin

section \<open>The event controller of mermaid-zoom-drag\<close>

text \<open>
  A shallow embedding of \<^verbatim>\<open>src/controllers/event-controller.ts\<close>. JavaScript numbers are
  modelled as exact reals: rounding, \<^verbatim>\<open>Infinity\<close> and \<^verbatim>\<open>NaN\<close> are not represented, and a
  division is the source's division only where the divisor is not zero. DOM elements
  are identified by natural numbers. \<^verbatim>\<open>preventDefault\<close> and \<^verbatim>\<open>stopPropagation\<close> act on
  the event object only and leave no trace in the state modelled here.
\<close>

subsection \<open>State\<close>

type_synonym elem = nat

text \<open>
  The fields of the plugin object that the controller reads and writes
  (\<^verbatim>\<open>this.plugin.dx\<close>, \<^verbatim>\<open>dy\<close>, \<^verbatim>\<open>scale\<close>, \<^verbatim>\<open>activeContainer\<close>,
  \<^verbatim>\<open>nativeTouchEventsEnabled\<close>, \<^verbatim>\<open>settings.automaticFolding\<close>), together with the
  part of the DOM its handlers touch: the result of
  \<^verbatim>\<open>container.querySelector(plugin.compoundSelector)\<close>, class lists, the two style
  properties set through \<^verbatim>\<open>setCssStyles\<close>, and the focused element. The transform
  string \<^verbatim>\<open>translate(dx px, dy px) scale(s)\<close> is kept as the triple it is printed from.
\<close>

record world =
  dx :: real
  dy :: real
  scale :: real
  activeContainer :: "elem option"
  nativeTouchEventsEnabled :: bool
  automaticFolding :: bool
  querySelector :: "elem \<Rightarrow> elem option"
  classList :: "elem \<Rightarrow> string set"
  transform :: "elem \<Rightarrow> (real \<times> real \<times> real) option"
  cursor :: "elem \<Rightarrow> string option"
  focused :: "elem option"

text \<open>
  The variables captured by the closures of \<^verbatim>\<open>addMouseEvents\<close>. The four numbers are
  declared without a value; \<^verbatim>\<open>mousemove\<close> reads them only while \<open>m_isDragging\<close> holds,
  and only \<^verbatim>\<open>mousedown\<close> sets that flag, after assigning all four.
\<close>

record mouse_env =
  m_startX :: real
  m_startY :: real
  initialX :: real
  initialY :: real
  m_isDragging :: bool

text \<open>
  The variables captured by the closures of \<^verbatim>\<open>addTouchEvents\<close>. \<open>startX\<close> and
  \<open>startY\<close> are assigned together with \<open>isDragging\<close>, \<open>initialDistance\<close> together
  with \<open>isPinching\<close>, and read only under the respective flag.
\<close>

record touch_env =
  startX :: real
  startY :: real
  initialDistance :: real
  isDragging :: bool
  isPinching :: bool

subsection \<open>Events\<close>

record Touch =
  clientX :: real
  clientY :: real

text \<open>
  \<open>target_in_button\<close> is the truth value of \<^verbatim>\<open>target.closest(BUTTON_SELECTOR)\<close>.
\<close>

record TouchEvent =
  touches :: "Touch list"
  target_in_button :: bool

record WheelEvent =
  w_ctrlKey :: bool
  w_clientX :: real
  w_clientY :: real
  deltaY :: real

record MouseEvent =
  button :: int
  m_clientX :: real
  m_clientY :: real

record KeyboardEvent =
  key :: string
  ctrlKey :: bool

text \<open>The part of \<^verbatim>\<open>getBoundingClientRect()\<close> the wheel handler reads; the browser supplies it.\<close>

record DOMRect =
  rect_left :: real
  rect_top :: real

subsection \<open>The shared move and zoom primitives\<close>

definition renderTransform :: "elem \<Rightarrow> world \<Rightarrow> world" where
  "renderTransform el w = w\<lparr>transform := (transform w)(el := Some (dx w, dy w, scale w))\<rparr>"

definition rerender :: "elem \<Rightarrow> world \<Rightarrow> world" where
  "rerender container w =
     (case querySelector w container of
        None \<Rightarrow> w
      | Some el \<Rightarrow> renderTransform el w)"

text \<open>
  Modelled from the spec: \<^verbatim>\<open>plugin.diagramController.moveElement\<close> is not in the sources.
  The spec: it ``adds (dx,dy) to the container's stored translation and re-renders the
  transform string''; the flag \<open>discrete\<close> only marks keyboard-originated calls.
\<close>

definition moveElement :: "elem \<Rightarrow> real \<Rightarrow> real \<Rightarrow> bool \<Rightarrow> world \<Rightarrow> world" where
  "moveElement container ddx ddy discrete w =
     rerender container (w\<lparr>dx := dx w + ddx, dy := dy w + ddy\<rparr>)"

text \<open>
  Modelled from the spec: \<^verbatim>\<open>plugin.diagramController.zoomElement\<close> is not in the sources.
  The spec: it ``multiplies stored scale by factor, clamped to the same 0.125 floor,
  re-renders transform''.
\<close>

definition zoomElement :: "elem \<Rightarrow> real \<Rightarrow> bool \<Rightarrow> world \<Rightarrow> world" where
  "zoomElement container factor discrete w =
     rerender container (w\<lparr>scale := max 0.125 (scale w * factor)\<rparr>)"

text \<open>
  Modelled from the spec: \<^verbatim>\<open>plugin.diagramController.resetZoomAndMove\<close> is not in the
  sources. The spec: it ``sets translation to (0,0) and scale to 1''.
\<close>

definition resetZoomAndMove :: "elem \<Rightarrow> bool \<Rightarrow> world \<Rightarrow> world" where
  "resetZoomAndMove container discrete w =
     rerender container (w\<lparr>dx := 0, dy := 0, scale := 1\<rparr>)"

subsection \<open>The handlers of \<^verbatim>\<open>addMouseEvents\<close>\<close>

definition wheel :: "elem \<Rightarrow> elem \<Rightarrow> DOMRect \<Rightarrow> WheelEvent \<Rightarrow> world \<Rightarrow> world" where
  "wheel container diagramElement rect event w =
     (if \<not> w_ctrlKey event then w
      else
        let w1 = w\<lparr>activeContainer := Some container\<rparr>;
            offsetX = w_clientX event - rect_left rect;
            offsetY = w_clientY event - rect_top rect;
            prevScale = scale w1;
            w2 = w1\<lparr>scale := scale w1 + deltaY event * - 0.001\<rparr>;
            w3 = w2\<lparr>scale := max 0.125 (scale w2)\<rparr>;
            ddx = offsetX * (1 - scale w3 / prevScale);
            ddy = offsetY * (1 - scale w3 / prevScale);
            w4 = w3\<lparr>dx := dx w3 + ddx\<rparr>;
            w5 = w4\<lparr>dy := dy w4 + ddy\<rparr>
        in renderTransform diagramElement w5)"

definition mousedown ::
  "elem \<Rightarrow> elem \<Rightarrow> MouseEvent \<Rightarrow> mouse_env \<times> world \<Rightarrow> mouse_env \<times> world" where
  "mousedown container diagramElement event st =
     (case st of (env, w) \<Rightarrow>
        if button event \<noteq> 0 then (env, w)
        else
          let w1 = w\<lparr>activeContainer := Some container\<rparr>;
              w2 = w1\<lparr>focused := Some container\<rparr>;
              env1 = env\<lparr>m_isDragging := True\<rparr>;
              env2 = env1\<lparr>m_startX := m_clientX event\<rparr>;
              env3 = env2\<lparr>m_startY := m_clientY event\<rparr>;
              env4 = env3\<lparr>initialX := dx w2\<rparr>;
              env5 = env4\<lparr>initialY := dy w2\<rparr>;
              w3 = w2\<lparr>cursor := (cursor w2)(diagramElement := Some ''grabbing'')\<rparr>
          in (env5, w3))"

definition mousemove ::
  "elem \<Rightarrow> elem \<Rightarrow> MouseEvent \<Rightarrow> mouse_env \<times> world \<Rightarrow> mouse_env \<times> world" where
  "mousemove container diagramElement event st =
     (case st of (env, w) \<Rightarrow>
        if \<not> m_isDragging env then (env, w)
        else
          let w1 = w\<lparr>activeContainer := Some container\<rparr>;
              ddx = m_clientX event - m_startX env;
              ddy = m_clientY event - m_startY env;
              w2 = w1\<lparr>dx := initialX env + ddx\<rparr>;
              w3 = w2\<lparr>dy := initialY env + ddy\<rparr>
          in (env, renderTransform diagramElement w3))"

definition mouseup :: "elem \<Rightarrow> elem \<Rightarrow> mouse_env \<times> world \<Rightarrow> mouse_env \<times> world" where
  "mouseup container diagramElement st =
     (case st of (env, w) \<Rightarrow>
        let w1 = w\<lparr>activeContainer := Some container\<rparr>
        in if m_isDragging env
           then (env\<lparr>m_isDragging := False\<rparr>,
                 w1\<lparr>cursor := (cursor w1)(diagramElement := Some ''grab'')\<rparr>)
           else (env, w1))"

definition mouseleave :: "elem \<Rightarrow> elem \<Rightarrow> mouse_env \<times> world \<Rightarrow> mouse_env \<times> world" where
  "mouseleave container diagramElement st =
     (case st of (env, w) \<Rightarrow>
        let w1 = w\<lparr>activeContainer := Some container\<rparr>
        in if m_isDragging env
           then (env\<lparr>m_isDragging := False\<rparr>,
                 w1\<lparr>cursor := (cursor w1)(diagramElement := Some ''grab'')\<rparr>)
           else (env, w1))"

subsection \<open>The handlers of \<^verbatim>\<open>addTouchEvents\<close>\<close>

text \<open>
  \<^verbatim>\<open>calculateDistance\<close> reads \<^verbatim>\<open>touches[0]\<close> and \<^verbatim>\<open>touches[1]\<close>; both handlers call it
  only under the test \<^verbatim>\<open>e.touches.length === 2\<close>.
\<close>

definition calculateDistance :: "Touch list \<Rightarrow> real" where
  "calculateDistance ts =
     (let touch1 = ts ! 0; touch2 = ts ! 1;
          ddx = clientX touch2 - clientX touch1;
          ddy = clientY touch2 - clientY touch1
      in sqrt (ddx * ddx + ddy * ddy))"

definition touchStart :: "elem \<Rightarrow> TouchEvent \<Rightarrow> touch_env \<times> world \<Rightarrow> touch_env \<times> world" where
  "touchStart container e st =
     (case st of (env, w) \<Rightarrow>
        if nativeTouchEventsEnabled w then (env, w)
        else
          let w1 = w\<lparr>activeContainer := Some container\<rparr>
          in if target_in_button e then (env, w1)
             else if length (touches e) = 1
             then (env\<lparr>isDragging := True,
                        startX := clientX (touches e ! 0),
                        startY := clientY (touches e ! 0)\<rparr>, w1)
             else if length (touches e) = 2
             then (env\<lparr>isPinching := True,
                        initialDistance := calculateDistance (touches e)\<rparr>, w1)
             else (env, w1))"

definition touchMove :: "elem \<Rightarrow> TouchEvent \<Rightarrow> touch_env \<times> world \<Rightarrow> touch_env \<times> world" where
  "touchMove container e st =
     (case st of (env, w) \<Rightarrow>
        if nativeTouchEventsEnabled w then (env, w)
        else
          let w1 = w\<lparr>activeContainer := Some container\<rparr>
          in (case querySelector w1 container of
                None \<Rightarrow> (env, w1)
              | Some element \<Rightarrow>
                  (if isDragging env \<and> length (touches e) = 1
                   then
                     (let ddx = clientX (touches e ! 0) - startX env;
                          ddy = clientY (touches e ! 0) - startY env;
                          w2 = moveElement container ddx ddy False w1
                      in (env\<lparr>startX := clientX (touches e ! 0),
                               startY := clientY (touches e ! 0)\<rparr>, w2))
                   else if isPinching env \<and> length (touches e) = 2
                   then
                     (let currentDistance = calculateDistance (touches e);
                          factor = currentDistance / initialDistance env;
                          w2 = zoomElement container factor False w1
                      in (env\<lparr>initialDistance := currentDistance\<rparr>, w2))
                   else (env, w1))))"

definition touchEnd :: "elem \<Rightarrow> TouchEvent \<Rightarrow> touch_env \<times> world \<Rightarrow> touch_env \<times> world" where
  "touchEnd container e st =
     (case st of (env, w) \<Rightarrow>
        if nativeTouchEventsEnabled w then (env, w)
        else
          let w1 = w\<lparr>activeContainer := Some container\<rparr>
          in if target_in_button e then (env, w1)
             else (env\<lparr>isDragging := False, isPinching := False\<rparr>, w1))"

definition scroll :: "elem \<Rightarrow> world \<Rightarrow> world" where
  "scroll container w =
     (if nativeTouchEventsEnabled w then w else w\<lparr>activeContainer := Some container\<rparr>)"

subsection \<open>The keyboard dispatcher and the focus handlers\<close>

definition KEYS :: "string list" where
  "KEYS = [''ArrowUp'', ''ArrowDown'', ''ArrowLeft'', ''ArrowRight'', ''='', ''+'', ''-'', ''0'']"

definition keydown :: "elem \<Rightarrow> KeyboardEvent \<Rightarrow> world \<Rightarrow> world" where
  "keydown container e w =
     (if key e \<notin> set KEYS then w
      else
        let w1 = w\<lparr>activeContainer := Some container\<rparr>;
            w2 = (if key e = ''ArrowUp'' then moveElement container 0 50 True w1
                  else if key e = ''ArrowDown'' then moveElement container 0 (- 50) True w1
                  else if key e = ''ArrowLeft'' then moveElement container 50 0 True w1
                  else if key e = ''ArrowRight'' then moveElement container (- 50) 0 True w1
                  else w1)
        in if ctrlKey e
           then (if key e = ''='' \<or> key e = ''+'' then zoomElement container 1.1 True w2
                 else if key e = ''-'' then zoomElement container 0.9 True w2
                 else if key e = ''0'' then resetZoomAndMove container True w2
                 else w2)
           else w2)"

definition focusin :: "elem \<Rightarrow> world \<Rightarrow> world" where
  "focusin container w =
     (if automaticFolding w
      then w\<lparr>classList := (classList w)(container := classList w container - {''folded''})\<rparr>
      else w)"

definition focusout :: "elem \<Rightarrow> world \<Rightarrow> world" where
  "focusout container w =
     (if automaticFolding w
      then w\<lparr>classList := (classList w)(container := insert ''folded'' (classList w container))\<rparr>
      else w)"

subsection \<open>One container's handlers as a single machine\<close>

text \<open>
  The events a container can receive, and the state its handlers share: the two closure
  environments and the plugin. \<open>handle\<close> runs the handler registered for the event;
  \<open>run\<close> delivers a sequence of events in order.
\<close>

datatype event =
    Wheel DOMRect WheelEvent
  | MouseDown MouseEvent
  | MouseMove MouseEvent
  | MouseUp
  | MouseLeave
  | TouchStart TouchEvent
  | TouchMove TouchEvent
  | TouchEnd TouchEvent
  | Scroll
  | KeyDown KeyboardEvent
  | FocusIn
  | FocusOut

fun handle ::
  "elem \<Rightarrow> elem \<Rightarrow> event \<Rightarrow> mouse_env \<times> touch_env \<times> world \<Rightarrow> mouse_env \<times> touch_env \<times> world" where
  "handle c d (Wheel r e) (m, t, w) = (m, t, wheel c d r e w)"
| "handle c d (MouseDown e) (m, t, w) = (case mousedown c d e (m, w) of (m', w') \<Rightarrow> (m', t, w'))"
| "handle c d (MouseMove e) (m, t, w) = (case mousemove c d e (m, w) of (m', w') \<Rightarrow> (m', t, w'))"
| "handle c d MouseUp (m, t, w) = (case mouseup c d (m, w) of (m', w') \<Rightarrow> (m', t, w'))"
| "handle c d MouseLeave (m, t, w) = (case mouseleave c d (m, w) of (m', w') \<Rightarrow> (m', t, w'))"
| "handle c d (TouchStart e) (m, t, w) = (case touchStart c e (t, w) of (t', w') \<Rightarrow> (m, t', w'))"
| "handle c d (TouchMove e) (m, t, w) = (case touchMove c e (t, w) of (t', w') \<Rightarrow> (m, t', w'))"
| "handle c d (TouchEnd e) (m, t, w) = (case touchEnd c e (t, w) of (t', w') \<Rightarrow> (m, t', w'))"
| "handle c d Scroll (m, t, w) = (m, t, scroll c w)"
| "handle c d (KeyDown e) (m, t, w) = (m, t, keydown c e w)"
| "handle c d FocusIn (m, t, w) = (m, t, focusin c w)"
| "handle c d FocusOut (m, t, w) = (m, t, focusout c w)"

definition run ::
  "elem \<Rightarrow> elem \<Rightarrow> event list \<Rightarrow> mouse_env \<times> touch_env \<times> world \<Rightarrow> mouse_env \<times> touch_env \<times> world" where
  "run c d evs st = foldl (\<lambda>s ev. handle c d ev s) st evs"

text \<open>
  No \<^verbatim>\<open>touchstart\<close> of the sequence arrives with two touches while \<open>isDragging\<close> is set,
  or with one touch while \<open>isPinching\<close> is set.
\<close>

fun starts_apart :: "elem \<Rightarrow> elem \<Rightarrow> event list \<Rightarrow> mouse_env \<times> touch_env \<times> world \<Rightarrow> bool" where
  "starts_apart c d [] st = True"
| "starts_apart c d (ev # evs) st =
     ((case ev of
         TouchStart e \<Rightarrow>
           \<not> (isDragging (fst (snd st)) \<and> length (touches e) = 2)
         \<and> \<not> (isPinching (fst (snd st)) \<and> length (touches e) = 1)
       | _ \<Rightarrow> True)
      \<and> starts_apart c d evs (handle c d ev st))"

text \<open>
  No \<^verbatim>\<open>touchmove\<close> of the sequence reaches the pinch branch with a stored distance of
  zero: there the source divides by zero (\<^verbatim>\<open>Infinity\<close> or \<^verbatim>\<open>NaN\<close>), which the reals
  do not represent.
\<close>

fun pinch_nonzero ::
  "elem \<Rightarrow> elem \<Rightarrow> event list \<Rightarrow> mouse_env \<times> touch_env \<times> world \<Rightarrow> bool" where
  "pinch_nonzero c d [] st = True"
| "pinch_nonzero c d (ev # evs) st =
     ((case ev of
         TouchMove e \<Rightarrow>
           \<not> (isPinching (fst (snd st)) \<and> length (touches e) = 2
              \<and> initialDistance (fst (snd st)) = 0)
       | _ \<Rightarrow> True)
      \<and> pinch_nonzero c d evs (handle c d ev st))"

text \<open>A mouse drag: the \<^verbatim>\<open>mousemove\<close> events of a list, delivered in order.\<close>

definition mousemoves ::
  "elem \<Rightarrow> elem \<Rightarrow> MouseEvent list \<Rightarrow> mouse_env \<times> world \<Rightarrow> mouse_env \<times> world" where
  "mousemoves c d es st = foldl (\<lambda>s e. mousemove c d e s) st es"

text \<open>A touch drag: the \<^verbatim>\<open>touchmove\<close> events of a list, delivered in order.\<close>

definition touchMoves ::
  "elem \<Rightarrow> TouchEvent list \<Rightarrow> touch_env \<times> world \<Rightarrow> touch_env \<times> world" where
  "touchMoves c es st = foldl (\<lambda>s e. touchMove c e s) st es"

text \<open>
  A pinch that closes: every frame has two touches at a positive distance, at most
  \<open>f\<close> times the distance of the frame before it (\<open>prev\<close> for the first).
\<close>

fun shrinking :: "real \<Rightarrow> real \<Rightarrow> TouchEvent list \<Rightarrow> bool" where
  "shrinking f prev [] = True"
| "shrinking f prev (e # es) =
     (length (touches e) = 2
      \<and> 0 < calculateDistance (touches e)
      \<and> calculateDistance (touches e) \<le> f * prev
      \<and> shrinking f (calculateDistance (touches e)) es)"

text \<open>
  The per-frame deltas of a sequence of positions: each position minus the one before
  it, the first minus \<open>prev\<close>.
\<close>

fun deltas :: "real \<Rightarrow> real list \<Rightarrow> real list" where
  "deltas prev [] = []"
| "deltas prev (x # xs) = (x - prev) # deltas x xs"

text \<open>An event with one touch at the given position, away from the panel buttons.\<close>

definition oneTouch :: "real \<Rightarrow> real \<Rightarrow> TouchEvent" where
  "oneTouch x y = \<lparr>touches = [\<lparr>clientX = x, clientY = y\<rparr>], target_in_button = False\<rparr>"

text \<open>An event with two touches at the given positions, away from the panel buttons.\<close>

definition twoTouches :: "real \<Rightarrow> real \<Rightarrow> real \<Rightarrow> real \<Rightarrow> TouchEvent" where
  "twoTouches x1 y1 x2 y2 =
     \<lparr>touches = [\<lparr>clientX = x1, clientY = y1\<rparr>, \<lparr>clientX = x2, clientY = y2\<rparr>],
      target_in_button = False\<rparr>"

text \<open>The key \<open>ArrowRight\<close> without ctrl.\<close>

definition arrowRight :: KeyboardEvent where
  "arrowRight = \<lparr>key = ''ArrowRight'', ctrlKey = False\<rparr>"

text \<open>The primary-button mouse event at the position of a touch event's first touch.\<close>

definition pointerAt :: "TouchEvent \<Rightarrow> MouseEvent" where
  "pointerAt e = \<lparr>button = 0, m_clientX = clientX (touches e ! 0), m_clientY = clientY (touches e ! 0)\<rparr>"

subsection \<open>Binding the listeners\<close>

text \<open>
  \<^verbatim>\<open>plugin.view.registerDomEvent\<close> belongs to the host; it adds the listener to the
  element. A listener is recorded with its target, its event type and the number of the
  closure environment its handler captured: every call of \<^verbatim>\<open>addMouseEvents\<close> or
  \<^verbatim>\<open>addTouchEvents\<close> that reaches the registrations creates new function objects over a
  new environment.
\<close>

datatype error = TypeError

record listener =
  l_target :: elem
  l_type :: string
  l_closure :: nat

record page = world +
  listeners :: "listener list"
  closures :: nat

definition registerDomEvent :: "elem \<Rightarrow> string \<Rightarrow> nat \<Rightarrow> page \<Rightarrow> page" where
  "registerDomEvent el type clo p =
     p\<lparr>listeners := listeners p @ [\<lparr>l_target = el, l_type = type, l_closure = clo\<rparr>]\<rparr>"

text \<open>
  \<^verbatim>\<open>diagramElement.classList\<close> throws a \<^verbatim>\<open>TypeError\<close> when \<^verbatim>\<open>querySelector\<close> found nothing.
\<close>

definition addMouseEvents :: "elem \<Rightarrow> page \<Rightarrow> error + page" where
  "addMouseEvents container p =
     (case querySelector p container of
        None \<Rightarrow> Inl TypeError
      | Some diagramElement \<Rightarrow>
          if ''events-bound'' \<in> classList p diagramElement then Inr p
          else
            let clo = closures p;
                p1 = p\<lparr>closures := Suc clo\<rparr>;
                p2 = p1\<lparr>classList := (classList p1)
                       (diagramElement := insert ''events-bound'' (classList p1 diagramElement))\<rparr>;
                p3 = registerDomEvent container ''wheel'' clo p2;
                p4 = registerDomEvent container ''mousedown'' clo p3;
                p5 = registerDomEvent container ''mousemove'' clo p4;
                p6 = registerDomEvent container ''mouseup'' clo p5;
                p7 = registerDomEvent container ''mouseleave'' clo p6
            in Inr p7)"

definition addTouchEvents :: "elem \<Rightarrow> page \<Rightarrow> page" where
  "addTouchEvents container p =
     (let clo = closures p;
          p1 = p\<lparr>closures := Suc clo\<rparr>;
          p2 = registerDomEvent container ''touchstart'' clo p1;
          p3 = registerDomEvent container ''touchmove'' clo p2;
          p4 = registerDomEvent container ''touchend'' clo p3;
          p5 = registerDomEvent container ''scroll'' clo p4
      in p5)"

text \<open>The handlers a single event of the given type on the given element fires.\<close>

definition fired :: "elem \<Rightarrow> string \<Rightarrow> page \<Rightarrow> listener list" where
  "fired el type p = filter (\<lambda>l. l_target l = el \<and> l_type l = type) (listeners p)"

subsection \<open>Sample states\<close>

definition env0 :: mouse_env where
  "env0 = \<lparr>m_startX = 0, m_startY = 0, initialX = 0, initialY = 0, m_isDragging = False\<rparr>"

definition tenv0 :: touch_env where
  "tenv0 = \<lparr>startX = 0, startY = 0, initialDistance = 0, isDragging = False, isPinching = False\<rparr>"

text \<open>
  A plugin at the identity transform, with one container \<open>1\<close> whose diagram element
  is \<open>2\<close>.
\<close>

definition world0 :: world where
  "world0 = \<lparr>dx = 0, dy = 0, scale = 1, activeContainer = None,
     nativeTouchEventsEnabled = False, automaticFolding = False,
     querySelector = (\<lambda>c. if c = 1 then Some 2 else None),
     classList = (\<lambda>_. {}), transform = (\<lambda>_. None), cursor = (\<lambda>_. None), focused = None\<rparr>"

definition page0 :: page where
  "page0 = \<lparr>dx = 0, dy = 0, scale = 1, activeContainer = None,
     nativeTouchEventsEnabled = False, automaticFolding = False,
     querySelector = (\<lambda>c. if c = 1 then Some 2 else None),
     classList = (\<lambda>_. {}), transform = (\<lambda>_. None), cursor = (\<lambda>_. None), focused = None,
     listeners = [], closures = 0\<rparr>"

section \<open>Properties\<close>

subsection \<open>Field lemmas for the primitives\<close>

lemma rerender_fields [simp]:
  "dx (rerender c w) = dx w"
  "dy (rerender c w) = dy w"
  "scale (rerender c w) = scale w"
  "activeContainer (rerender c w) = activeContainer w"
  "nativeTouchEventsEnabled (rerender c w) = nativeTouchEventsEnabled w"
  "querySelector (rerender c w) = querySelector w"
  by (simp_all add: rerender_def renderTransform_def split: option.splits)

lemma moveElement_fields [simp]:
  "dx (moveElement c a b k w) = dx w + a"
  "dy (moveElement c a b k w) = dy w + b"
  "scale (moveElement c a b k w) = scale w"
  "activeContainer (moveElement c a b k w) = activeContainer w"
  "nativeTouchEventsEnabled (moveElement c a b k w) = nativeTouchEventsEnabled w"
  "querySelector (moveElement c a b k w) = querySelector w"
  by (simp_all add: moveElement_def)

lemma zoomElement_fields [simp]:
  "dx (zoomElement c f k w) = dx w"
  "dy (zoomElement c f k w) = dy w"
  "scale (zoomElement c f k w) = max 0.125 (scale w * f)"
  "activeContainer (zoomElement c f k w) = activeContainer w"
  "nativeTouchEventsEnabled (zoomElement c f k w) = nativeTouchEventsEnabled w"
  "querySelector (zoomElement c f k w) = querySelector w"
  by (simp_all add: zoomElement_def)

lemma resetZoomAndMove_fields [simp]:
  "dx (resetZoomAndMove c k w) = 0"
  "dy (resetZoomAndMove c k w) = 0"
  "scale (resetZoomAndMove c k w) = 1"
  "activeContainer (resetZoomAndMove c k w) = activeContainer w"
  by (simp_all add: resetZoomAndMove_def)

subsection \<open>Wheel zoom\<close>

text \<open>
  C1 (as amended). A wheel event with the ctrl modifier held, on a plugin whose scale is
  not zero, sets the scale to the old scale plus \<open>deltaY * -0.001\<close>, floored at
  \<open>0.125\<close>, and adds \<open>offset * (1 - newScale / oldScale)\<close> to each translation
  component, the offset being the cursor position relative to the diagram element's
  bounding rectangle. At the spec's scenario this gives scale \<open>1.1\<close>, \<open>dx = -10\<close>
  and \<open>dy = -5\<close> (the witness below), not the values \<open>100 * (1 - 1/1.1)\<close> and
  \<open>50 * (1 - 1/1.1)\<close> the claim names (the counterexample below).
\<close>

theorem wheel_ctrl_zoom:
  assumes "w_ctrlKey event" and "scale w \<noteq> 0"
  shows "scale (wheel c d rect event w) = max 0.125 (scale w + deltaY event * - 0.001)
       \<and> dx (wheel c d rect event w) =
           dx w + (w_clientX event - rect_left rect) * (1 - scale (wheel c d rect event w) / scale w)
       \<and> dy (wheel c d rect event w) =
           dy w + (w_clientY event - rect_top rect) * (1 - scale (wheel c d rect event w) / scale w)"
  using assms by (simp add: wheel_def renderTransform_def Let_def)

theorem wheel_ctrl_zoom_witness:
  "scale (wheel 1 2 \<lparr>rect_left = 0, rect_top = 0\<rparr>
            \<lparr>w_ctrlKey = True, w_clientX = 100, w_clientY = 50, deltaY = - 100\<rparr> world0) = 1.1
   \<and> dx (wheel 1 2 \<lparr>rect_left = 0, rect_top = 0\<rparr>
            \<lparr>w_ctrlKey = True, w_clientX = 100, w_clientY = 50, deltaY = - 100\<rparr> world0) = - 10
   \<and> dy (wheel 1 2 \<lparr>rect_left = 0, rect_top = 0\<rparr>
            \<lparr>w_ctrlKey = True, w_clientX = 100, w_clientY = 50, deltaY = - 100\<rparr> world0) = - 5"
  using wheel_ctrl_zoom [of "\<lparr>w_ctrlKey = True, w_clientX = 100, w_clientY = 50, deltaY = - 100\<rparr>"
      world0 1 2 "\<lparr>rect_left = 0, rect_top = 0\<rparr>"]
  by (simp add: world0_def)

theorem wheel_scenario_counterexample:
  "dx (wheel 1 2 \<lparr>rect_left = 0, rect_top = 0\<rparr>
            \<lparr>w_ctrlKey = True, w_clientX = 100, w_clientY = 50, deltaY = - 100\<rparr> world0)
     \<noteq> 100 * (1 - 1 / 1.1)
   \<and> dy (wheel 1 2 \<lparr>rect_left = 0, rect_top = 0\<rparr>
            \<lparr>w_ctrlKey = True, w_clientX = 100, w_clientY = 50, deltaY = - 100\<rparr> world0)
     \<noteq> 50 * (1 - 1 / 1.1)"
  by (simp add: wheel_def renderTransform_def Let_def world0_def)

subsection \<open>The keyboard dispatcher\<close>

text \<open>
  C7. Each arrow key is a 50-unit nudge, whether or not ctrl is held: \<open>ArrowUp\<close> adds 50
  to \<open>dy\<close>, \<open>ArrowDown\<close> subtracts 50 from \<open>dy\<close>, \<open>ArrowLeft\<close> adds 50 to \<open>dx\<close>,
  \<open>ArrowRight\<close> subtracts 50 from \<open>dx\<close>, the other component unchanged; ctrl with
  \<open>0\<close> sets \<open>(dx, dy, scale)\<close> to \<open>(0, 0, 1)\<close> from any prior transform.
\<close>

theorem keydown_nudge_and_reset:
  "dy (keydown c \<lparr>key = ''ArrowUp'', ctrlKey = b\<rparr> w) = dy w + 50
 \<and> dx (keydown c \<lparr>key = ''ArrowUp'', ctrlKey = b\<rparr> w) = dx w
 \<and> dy (keydown c \<lparr>key = ''ArrowDown'', ctrlKey = b\<rparr> w) = dy w - 50
 \<and> dx (keydown c \<lparr>key = ''ArrowDown'', ctrlKey = b\<rparr> w) = dx w
 \<and> dx (keydown c \<lparr>key = ''ArrowLeft'', ctrlKey = b\<rparr> w) = dx w + 50
 \<and> dy (keydown c \<lparr>key = ''ArrowLeft'', ctrlKey = b\<rparr> w) = dy w
 \<and> dx (keydown c \<lparr>key = ''ArrowRight'', ctrlKey = b\<rparr> w) = dx w - 50
 \<and> dy (keydown c \<lparr>key = ''ArrowRight'', ctrlKey = b\<rparr> w) = dy w
 \<and> dx (keydown c \<lparr>key = ''0'', ctrlKey = True\<rparr> w) = 0
 \<and> dy (keydown c \<lparr>key = ''0'', ctrlKey = True\<rparr> w) = 0
 \<and> scale (keydown c \<lparr>key = ''0'', ctrlKey = True\<rparr> w) = 1"
  by (simp add: keydown_def KEYS_def Let_def)

theorem keydown_nudge_and_reset_witness:
  "dx (keydown 1 \<lparr>key = ''ArrowRight'', ctrlKey = False\<rparr> world0) = - 50
 \<and> scale (keydown 1 \<lparr>key = ''0'', ctrlKey = True\<rparr> (world0\<lparr>dx := 7, dy := 8, scale := 3\<rparr>)) = 1"
  using keydown_nudge_and_reset [of 1 False world0]
    keydown_nudge_and_reset [of 1 False "world0\<lparr>dx := 7, dy := 8, scale := 3\<rparr>"]
  by (simp add: world0_def)

subsection \<open>Mouse drag\<close>

lemma mousemove_env: "fst (mousemove c d e (env, w)) = env"
  by (simp add: mousemove_def Let_def)

lemma mousemoves_env: "fst (mousemoves c d es (env, w)) = env"
proof (induction es arbitrary: w)
  case Nil
  show ?case by (simp add: mousemoves_def)
next
  case (Cons e es)
  obtain w' where "mousemove c d e (env, w) = (env, w')"
    using mousemove_env [of c d e env w] by (cases "mousemove c d e (env, w)") simp
  with Cons show ?case by (simp add: mousemoves_def)
qed

lemma mousemoves_snoc: "mousemoves c d (es @ [e]) st = mousemove c d e (mousemoves c d es st)"
  by (simp add: mousemoves_def)

lemma mousemove_dragging:
  "m_isDragging env \<Longrightarrow>
   dx (snd (mousemove c d e (env, w))) = initialX env + (m_clientX e - m_startX env)
 \<and> dy (snd (mousemove c d e (env, w))) = initialY env + (m_clientY e - m_startY env)"
  by (simp add: mousemove_def Let_def renderTransform_def)

lemma mousedown_env:
  "button e = 0 \<Longrightarrow>
   fst (mousedown c d e (env, w)) =
     \<lparr>m_startX = m_clientX e, m_startY = m_clientY e, initialX = dx w, initialY = dy w,
      m_isDragging = True\<rparr>"
  by (simp add: mousedown_def Let_def)

lemma mouse_drag_closed_form:
  assumes "button down = 0"
  shows "dx (snd (mousemoves c d moves (mousedown c d down (env, w))))
           = dx w + m_clientX (last (down # moves)) - m_clientX down
       \<and> dy (snd (mousemoves c d moves (mousedown c d down (env, w))))
           = dy w + m_clientY (last (down # moves)) - m_clientY down"
proof (cases moves rule: rev_cases)
  case Nil
  then show ?thesis using assms by (simp add: mousemoves_def mousedown_def Let_def)
next
  case (snoc es e)
  define env1 where "env1 = fst (mousedown c d down (env, w))"
  define w1 where "w1 = snd (mousedown c d down (env, w))"
  have st: "mousedown c d down (env, w) = (env1, w1)"
    by (simp add: env1_def w1_def)
  have e1: "env1 = \<lparr>m_startX = m_clientX down, m_startY = m_clientY down,
      initialX = dx w, initialY = dy w, m_isDragging = True\<rparr>"
    unfolding env1_def using assms by (rule mousedown_env)
  define w2 where "w2 = snd (mousemoves c d es (env1, w1))"
  have mid: "mousemoves c d es (env1, w1) = (env1, w2)"
    using mousemoves_env [of c d es env1 w1] by (simp add: w2_def prod_eq_iff)
  have "mousemoves c d moves (env1, w1) = mousemove c d e (env1, w2)"
    by (simp add: snoc mousemoves_snoc mid)
  moreover have "m_isDragging env1" by (simp add: e1)
  ultimately show ?thesis
    using mousemove_dragging [of env1 c d e w2] by (simp add: st snoc e1)
qed

text \<open>
  C3. A drag session starts with a primary-button \<open>mousedown\<close> at \<open>(startX, startY)\<close>,
  which captures the translation \<open>(dx0, dy0)\<close> of that moment. After any non-empty
  sequence of \<open>mousemove\<close> events of the session, the translation is
  \<open>(dx0 + lastX - startX, dy0 + lastY - startY)\<close> for the last pointer position
  \<open>(lastX, lastY)\<close>: no intermediate position occurs in it.
\<close>

theorem mouse_drag_absolute:
  assumes "button down = 0" and "moves \<noteq> []"
  shows "dx (snd (mousemoves c d moves (mousedown c d down (env, w))))
           = dx w + m_clientX (last moves) - m_clientX down
       \<and> dy (snd (mousemoves c d moves (mousedown c d down (env, w))))
           = dy w + m_clientY (last moves) - m_clientY down"
  using mouse_drag_closed_form [OF assms(1), of c d moves env w] assms(2) by simp

theorem mouse_drag_absolute_witness:
  "dx (snd (mousemoves 1 2 [\<lparr>button = 0, m_clientX = 20, m_clientY = 25\<rparr>,
                            \<lparr>button = 0, m_clientX = 40, m_clientY = 15\<rparr>]
         (mousedown 1 2 \<lparr>button = 0, m_clientX = 10, m_clientY = 10\<rparr> (env0, world0)))) = 30
 \<and> dy (snd (mousemoves 1 2 [\<lparr>button = 0, m_clientX = 20, m_clientY = 25\<rparr>,
                            \<lparr>button = 0, m_clientX = 40, m_clientY = 15\<rparr>]
         (mousedown 1 2 \<lparr>button = 0, m_clientX = 10, m_clientY = 10\<rparr> (env0, world0)))) = 5"
  using mouse_drag_absolute [of "\<lparr>button = 0, m_clientX = 10, m_clientY = 10\<rparr>"
      "[\<lparr>button = 0, m_clientX = 20, m_clientY = 25\<rparr>, \<lparr>button = 0, m_clientX = 40, m_clientY = 15\<rparr>]"
      1 2 env0 world0]
  by (simp add: world0_def)

subsection \<open>Touch drag\<close>

lemma deltas_telescope: "sum_list (deltas p xs) = last (p # xs) - p"
  by (induction xs arbitrary: p) auto

lemma touchMove_drag_step:
  assumes "\<not> nativeTouchEventsEnabled w" and "querySelector w c = Some el"
    and "isDragging env" and "length (touches e) = 1"
  shows "touchMove c e (env, w) =
    (env\<lparr>startX := clientX (touches e ! 0), startY := clientY (touches e ! 0)\<rparr>,
     moveElement c (clientX (touches e ! 0) - startX env) (clientY (touches e ! 0) - startY env)
       False (w\<lparr>activeContainer := Some c\<rparr>))"
  using assms by (simp add: touchMove_def Let_def)

lemma touchMoves_drag:
  assumes "\<not> nativeTouchEventsEnabled w" and "querySelector w c = Some el"
    and "isDragging env" and "\<forall>e\<in>set es. length (touches e) = 1"
  shows "dx (snd (touchMoves c es (env, w)))
           = dx w + sum_list (deltas (startX env) (map (\<lambda>e. clientX (touches e ! 0)) es))
       \<and> dy (snd (touchMoves c es (env, w)))
           = dy w + sum_list (deltas (startY env) (map (\<lambda>e. clientY (touches e ! 0)) es))
       \<and> startX (fst (touchMoves c es (env, w)))
           = last (startX env # map (\<lambda>e. clientX (touches e ! 0)) es)
       \<and> startY (fst (touchMoves c es (env, w)))
           = last (startY env # map (\<lambda>e. clientY (touches e ! 0)) es)"
  using assms
proof (induction es arbitrary: env w)
  case Nil
  show ?case by (simp add: touchMoves_def)
next
  case (Cons e es)
  let ?env = "env\<lparr>startX := clientX (touches e ! 0), startY := clientY (touches e ! 0)\<rparr>"
  let ?w = "moveElement c (clientX (touches e ! 0) - startX env)
              (clientY (touches e ! 0) - startY env) False (w\<lparr>activeContainer := Some c\<rparr>)"
  have len: "length (touches e) = 1" using Cons.prems(4) by simp
  have step: "touchMove c e (env, w) = (?env, ?w)"
    using Cons.prems(1-3) len by (rule touchMove_drag_step)
  have unfold: "touchMoves c (e # es) (env, w) = touchMoves c es (?env, ?w)"
    by (simp add: touchMoves_def step)
  have "\<not> nativeTouchEventsEnabled ?w" using Cons.prems(1) by simp
  moreover have "querySelector ?w c = Some el" using Cons.prems(2) by simp
  moreover have "isDragging ?env" using Cons.prems(3) by simp
  moreover have "\<forall>e\<in>set es. length (touches e) = 1" using Cons.prems(4) by simp
  ultimately have IH: "dx (snd (touchMoves c es (?env, ?w)))
           = dx ?w + sum_list (deltas (startX ?env) (map (\<lambda>e. clientX (touches e ! 0)) es))
       \<and> dy (snd (touchMoves c es (?env, ?w)))
           = dy ?w + sum_list (deltas (startY ?env) (map (\<lambda>e. clientY (touches e ! 0)) es))
       \<and> startX (fst (touchMoves c es (?env, ?w)))
           = last (startX ?env # map (\<lambda>e. clientX (touches e ! 0)) es)
       \<and> startY (fst (touchMoves c es (?env, ?w)))
           = last (startY ?env # map (\<lambda>e. clientY (touches e ! 0)) es)"
    by (rule Cons.IH)
  show ?case unfolding unfold using IH by simp
qed

lemma touchStart_one:
  assumes "\<not> nativeTouchEventsEnabled w" and "\<not> target_in_button e" and "length (touches e) = 1"
  shows "touchStart c e (env, w) =
    (env\<lparr>isDragging := True, startX := clientX (touches e ! 0), startY := clientY (touches e ! 0)\<rparr>,
     w\<lparr>activeContainer := Some c\<rparr>)"
  using assms by (simp add: touchStart_def Let_def)

lemma touch_drag_sums:
  assumes "\<not> nativeTouchEventsEnabled w" and "querySelector w c = Some el"
    and "\<not> target_in_button start" and "length (touches start) = 1"
    and "\<forall>e\<in>set moves. length (touches e) = 1"
  shows "dx (snd (touchMoves c moves (touchStart c start (env, w))))
           = dx w + sum_list (deltas (clientX (touches start ! 0)) (map (\<lambda>e. clientX (touches e ! 0)) moves))
       \<and> dy (snd (touchMoves c moves (touchStart c start (env, w))))
           = dy w + sum_list (deltas (clientY (touches start ! 0)) (map (\<lambda>e. clientY (touches e ! 0)) moves))
       \<and> startX (fst (touchMoves c moves (touchStart c start (env, w))))
           = last (clientX (touches start ! 0) # map (\<lambda>e. clientX (touches e ! 0)) moves)
       \<and> startY (fst (touchMoves c moves (touchStart c start (env, w))))
           = last (clientY (touches start ! 0) # map (\<lambda>e. clientY (touches e ! 0)) moves)"
proof -
  let ?env = "env\<lparr>isDragging := True, startX := clientX (touches start ! 0),
                  startY := clientY (touches start ! 0)\<rparr>"
  let ?w = "w\<lparr>activeContainer := Some c\<rparr>"
  have st: "touchStart c start (env, w) = (?env, ?w)"
    using assms(1,3,4) by (rule touchStart_one)
  have "\<not> nativeTouchEventsEnabled ?w" using assms(1) by simp
  moreover have "querySelector ?w c = Some el" using assms(2) by simp
  moreover have "isDragging ?env" by simp
  ultimately have main: "dx (snd (touchMoves c moves (?env, ?w)))
           = dx ?w + sum_list (deltas (startX ?env) (map (\<lambda>e. clientX (touches e ! 0)) moves))
       \<and> dy (snd (touchMoves c moves (?env, ?w)))
           = dy ?w + sum_list (deltas (startY ?env) (map (\<lambda>e. clientY (touches e ! 0)) moves))
       \<and> startX (fst (touchMoves c moves (?env, ?w)))
           = last (startX ?env # map (\<lambda>e. clientX (touches e ! 0)) moves)
       \<and> startY (fst (touchMoves c moves (?env, ?w)))
           = last (startY ?env # map (\<lambda>e. clientY (touches e ! 0)) moves)"
    using assms(5) by (rule touchMoves_drag)
  show ?thesis unfolding st using main by simp
qed

text \<open>
  The machine's runs of \<^verbatim>\<open>touchmove\<close> and \<^verbatim>\<open>mousemove\<close> events are the two folds.
\<close>

lemma run_Cons: "run c d (ev # evs) st = run c d evs (handle c d ev st)"
  by (simp add: run_def)

lemma run_append: "run c d (xs @ ys) st = run c d ys (run c d xs st)"
  by (simp add: run_def)

lemma run_TouchMoves: "run c d (map TouchMove es) (m, t, w) = (m, touchMoves c es (t, w))"
proof (induction es arbitrary: t w)
  case Nil
  show ?case by (simp add: run_def touchMoves_def)
next
  case (Cons e es)
  obtain t' w' where s: "touchMove c e (t, w) = (t', w')" by (cases "touchMove c e (t, w)")
  have "run c d (map TouchMove (e # es)) (m, t, w) = run c d (map TouchMove es) (m, t', w')"
    by (simp add: run_Cons s)
  also have "\<dots> = (m, touchMoves c es (t', w'))" by (rule Cons.IH)
  also have "touchMoves c es (t', w') = touchMoves c (e # es) (t, w)"
    by (simp add: touchMoves_def s)
  finally show ?case .
qed

lemma run_MouseMoves:
  "run c d (map MouseMove es) (m, t, w) =
     (fst (mousemoves c d es (m, w)), t, snd (mousemoves c d es (m, w)))"
proof (induction es arbitrary: m w)
  case Nil
  show ?case by (simp add: run_def mousemoves_def)
next
  case (Cons e es)
  obtain m' w' where s: "mousemove c d e (m, w) = (m', w')" by (cases "mousemove c d e (m, w)")
  have "run c d (map MouseMove (e # es)) (m, t, w) = run c d (map MouseMove es) (m', t, w')"
    by (simp add: run_Cons s)
  also have "\<dots> = (fst (mousemoves c d es (m', w')), t, snd (mousemoves c d es (m', w')))"
    by (rule Cons.IH)
  also have "mousemoves c d es (m', w') = mousemoves c d (e # es) (m, w)"
    by (simp add: mousemoves_def s)
  finally show ?case .
qed

lemma touchMoves_drag_keeps:
  assumes "\<not> nativeTouchEventsEnabled w" and "querySelector w c = Some el"
    and "isDragging env" and "\<forall>e\<in>set es. length (touches e) = 1"
  shows "\<not> nativeTouchEventsEnabled (snd (touchMoves c es (env, w)))
       \<and> querySelector (snd (touchMoves c es (env, w))) c = Some el
       \<and> isDragging (fst (touchMoves c es (env, w)))"
  using assms
proof (induction es arbitrary: env w)
  case Nil
  then show ?case by (simp add: touchMoves_def)
next
  case (Cons e es)
  let ?env = "env\<lparr>startX := clientX (touches e ! 0), startY := clientY (touches e ! 0)\<rparr>"
  let ?w = "moveElement c (clientX (touches e ! 0) - startX env)
              (clientY (touches e ! 0) - startY env) False (w\<lparr>activeContainer := Some c\<rparr>)"
  have len: "length (touches e) = 1" using Cons.prems(4) by simp
  have step: "touchMove c e (env, w) = (?env, ?w)"
    using Cons.prems(1-3) len by (rule touchMove_drag_step)
  have unfold: "touchMoves c (e # es) (env, w) = touchMoves c es (?env, ?w)"
    by (simp add: touchMoves_def step)
  have "\<not> nativeTouchEventsEnabled ?w" using Cons.prems(1) by simp
  moreover have "querySelector ?w c = Some el" using Cons.prems(2) by simp
  moreover have "isDragging ?env" using Cons.prems(3) by simp
  moreover have "\<forall>e\<in>set es. length (touches e) = 1" using Cons.prems(4) by simp
  ultimately show ?case unfolding unfold by (rule Cons.IH)
qed

lemma keydown_arrowRight:
  "dx (keydown c arrowRight w) = dx w - 50"
  "nativeTouchEventsEnabled (keydown c arrowRight w) = nativeTouchEventsEnabled w"
  "querySelector (keydown c arrowRight w) = querySelector w"
  by (simp_all add: keydown_def KEYS_def arrowRight_def Let_def)

lemma mousemoves_last:
  assumes "m_isDragging env" and "es \<noteq> []"
  shows "dx (snd (mousemoves c d es (env, w))) = initialX env + (m_clientX (last es) - m_startX env)"
proof -
  obtain es' e where es: "es = es' @ [e]"
    using assms(2) by (cases es rule: rev_cases) auto
  define w2 where "w2 = snd (mousemoves c d es' (env, w))"
  have mid: "mousemoves c d es' (env, w) = (env, w2)"
    using mousemoves_env [of c d es' env w] by (simp add: w2_def prod_eq_iff)
  have "mousemoves c d es (env, w) = mousemove c d e (env, w2)"
    by (simp add: es mousemoves_snoc mid)
  then show ?thesis
    using mousemove_dragging [OF assms(1), of c d e w2] by (simp add: es)
qed

lemma touch_drag_with_nudge:
  assumes "\<not> nativeTouchEventsEnabled w" and "querySelector w c = Some el"
    and "\<not> target_in_button start" and "length (touches start) = 1"
    and "\<forall>e\<in>set moves1. length (touches e) = 1"
    and "\<forall>e\<in>set moves2. length (touches e) = 1"
    and "moves2 \<noteq> []"
  shows "dx (snd (snd (run c d
           (TouchStart start # map TouchMove moves1 @ KeyDown arrowRight # map TouchMove moves2)
           (menv, env, w))))
         = dx w + clientX (touches (last moves2) ! 0) - clientX (touches start ! 0) - 50"
proof -
  let ?X = "\<lambda>e. clientX (touches e ! 0)"
  let ?t1 = "env\<lparr>isDragging := True, startX := clientX (touches start ! 0),
                  startY := clientY (touches start ! 0)\<rparr>"
  let ?w1 = "w\<lparr>activeContainer := Some c\<rparr>"
  have st: "touchStart c start (env, w) = (?t1, ?w1)"
    using assms(1,3,4) by (rule touchStart_one)
  define t2 where "t2 = fst (touchMoves c moves1 (?t1, ?w1))"
  define w2 where "w2 = snd (touchMoves c moves1 (?t1, ?w1))"
  have tm1: "touchMoves c moves1 (?t1, ?w1) = (t2, w2)" by (simp add: t2_def w2_def)
  have n1: "\<not> nativeTouchEventsEnabled ?w1" using assms(1) by simp
  have q1: "querySelector ?w1 c = Some el" using assms(2) by simp
  have d1: "isDragging ?t1" by simp
  have keeps: "\<not> nativeTouchEventsEnabled w2 \<and> querySelector w2 c = Some el \<and> isDragging t2"
    unfolding t2_def w2_def using n1 q1 d1 assms(5) by (rule touchMoves_drag_keeps)
  have vals: "dx w2 = dx ?w1 + sum_list (deltas (startX ?t1) (map ?X moves1))
      \<and> startX t2 = last (startX ?t1 # map ?X moves1)"
    unfolding t2_def w2_def using touchMoves_drag [OF n1 q1 d1 assms(5)] by simp
  let ?w3 = "keydown c arrowRight w2"
  have n3: "\<not> nativeTouchEventsEnabled ?w3" using keeps by (simp add: keydown_arrowRight)
  have q3: "querySelector ?w3 c = Some el" using keeps by (simp add: keydown_arrowRight)
  have d3: "isDragging t2" using keeps by simp
  have fin: "dx (snd (touchMoves c moves2 (t2, ?w3)))
      = dx ?w3 + sum_list (deltas (startX t2) (map ?X moves2))"
    using touchMoves_drag [OF n3 q3 d3 assms(6)] by simp
  have runeq: "run c d
           (TouchStart start # map TouchMove moves1 @ KeyDown arrowRight # map TouchMove moves2)
           (menv, env, w) = (menv, touchMoves c moves2 (t2, ?w3))"
    by (simp add: run_Cons run_append st run_TouchMoves tm1)
  have l2: "last (startX t2 # map ?X moves2) = ?X (last moves2)"
    using assms(7) by (simp add: last_map)
  have "dx (snd (touchMoves c moves2 (t2, ?w3)))
      = dx w + (last (clientX (touches start ! 0) # map ?X moves1) - clientX (touches start ! 0))
          - 50 + (?X (last moves2) - last (clientX (touches start ! 0) # map ?X moves1))"
    using fin vals l2 by (simp add: deltas_telescope keydown_arrowRight)
  then show ?thesis by (simp add: runeq)
qed

lemma mouse_drag_with_nudge:
  assumes "moves2 \<noteq> []"
  shows "dx (snd (snd (run c d
           (MouseDown (pointerAt start) # map MouseMove (map pointerAt moves1)
              @ KeyDown arrowRight # map MouseMove (map pointerAt moves2))
           (menv, env, w))))
         = dx w + clientX (touches (last moves2) ! 0) - clientX (touches start ! 0)"
proof -
  let ?m1 = "\<lparr>m_startX = m_clientX (pointerAt start), m_startY = m_clientY (pointerAt start),
      initialX = dx w, initialY = dy w, m_isDragging = True\<rparr>"
  have b: "button (pointerAt start) = 0" by (simp add: pointerAt_def)
  define w1 where "w1 = snd (mousedown c d (pointerAt start) (menv, w))"
  have md: "mousedown c d (pointerAt start) (menv, w) = (?m1, w1)"
    using mousedown_env [OF b, of c d menv w] by (simp add: w1_def prod_eq_iff)
  define w2 where "w2 = snd (mousemoves c d (map pointerAt moves1) (?m1, w1))"
  have mm1: "mousemoves c d (map pointerAt moves1) (?m1, w1) = (?m1, w2)"
    using mousemoves_env [of c d "map pointerAt moves1" ?m1 w1] by (simp add: w2_def prod_eq_iff)
  let ?w3 = "keydown c arrowRight w2"
  have runeq: "run c d
           (MouseDown (pointerAt start) # map MouseMove (map pointerAt moves1)
              @ KeyDown arrowRight # map MouseMove (map pointerAt moves2))
           (menv, env, w)
      = (fst (mousemoves c d (map pointerAt moves2) (?m1, ?w3)), env,
         snd (mousemoves c d (map pointerAt moves2) (?m1, ?w3)))"
    by (simp only: run_Cons run_append handle.simps md run_MouseMoves mm1 prod.case fst_conv snd_conv)
  have ne: "map pointerAt moves2 \<noteq> []" using assms by simp
  have drag: "m_isDragging ?m1" by simp
  have "dx (snd (mousemoves c d (map pointerAt moves2) (?m1, ?w3)))
      = initialX ?m1 + (m_clientX (last (map pointerAt moves2)) - m_startX ?m1)"
    using drag ne by (rule mousemoves_last)
  also have "\<dots> = dx w + clientX (touches (last moves2) ! 0) - clientX (touches start ! 0)"
    using assms by (simp add: last_map pointerAt_def)
  finally show ?thesis by (simp only: runeq snd_conv)
qed

lemma mouse_keeps_start:
  assumes "button down = 0"
  shows "m_startX (fst (mousemoves c d moves (mousedown c d down (menv, w)))) = m_clientX down
       \<and> m_startY (fst (mousemoves c d moves (mousedown c d down (menv, w)))) = m_clientY down"
proof -
  define w1 where "w1 = snd (mousedown c d down (menv, w))"
  let ?m1 = "\<lparr>m_startX = m_clientX down, m_startY = m_clientY down,
      initialX = dx w, initialY = dy w, m_isDragging = True\<rparr>"
  have md: "mousedown c d down (menv, w) = (?m1, w1)"
    using mousedown_env [OF assms, of c d menv w] by (simp add: w1_def prod_eq_iff)
  show ?thesis unfolding md by (simp add: mousemoves_env)
qed

text \<open>
  C4. A single-finger touch drag starts with a \<open>touchstart\<close> with one touch, away from
  the panel buttons, with native touch events disabled and the diagram element present.
  After any sequence of single-finger \<open>touchmove\<close> events, the translation is the
  translation at the start plus the sum of the per-frame deltas (each frame's position
  minus the previous frame's), and the stored start point is the last position: the
  baseline is reset every frame. The mouse drag accumulates differently on the same
  pointer positions: its stored start point stays the \<open>mousedown\<close> position, and when
  the translation is nudged by an \<open>ArrowRight\<close> key between two frames, the touch drag
  keeps the nudge where the mouse drag overwrites it, so the two translations differ
  by 50.
\<close>

theorem touch_drag_relative:
  assumes "\<not> nativeTouchEventsEnabled w" and "querySelector w c = Some el"
    and "\<not> target_in_button start" and "length (touches start) = 1"
    and "\<forall>e\<in>set moves. length (touches e) = 1"
  shows "dx (snd (touchMoves c moves (touchStart c start (env, w))))
           = dx w + sum_list (deltas (clientX (touches start ! 0)) (map (\<lambda>e. clientX (touches e ! 0)) moves))
       \<and> dy (snd (touchMoves c moves (touchStart c start (env, w))))
           = dy w + sum_list (deltas (clientY (touches start ! 0)) (map (\<lambda>e. clientY (touches e ! 0)) moves))
       \<and> startX (fst (touchMoves c moves (touchStart c start (env, w))))
           = last (clientX (touches start ! 0) # map (\<lambda>e. clientX (touches e ! 0)) moves)
       \<and> startY (fst (touchMoves c moves (touchStart c start (env, w))))
           = last (clientY (touches start ! 0) # map (\<lambda>e. clientY (touches e ! 0)) moves)
       \<and> m_startX (fst (mousemoves c d (map pointerAt moves) (mousedown c d (pointerAt start) (menv, w))))
           = clientX (touches start ! 0)
       \<and> m_startY (fst (mousemoves c d (map pointerAt moves) (mousedown c d (pointerAt start) (menv, w))))
           = clientY (touches start ! 0)
       \<and> ((\<forall>e\<in>set frames. length (touches e) = 1) \<and> moves \<noteq> [] \<longrightarrow>
            dx (snd (snd (run c d
                 (TouchStart start # map TouchMove frames @ KeyDown arrowRight # map TouchMove moves)
                 (menv, env, w))))
            = dx (snd (snd (run c d
                 (MouseDown (pointerAt start) # map MouseMove (map pointerAt frames)
                    @ KeyDown arrowRight # map MouseMove (map pointerAt moves))
                 (menv, env, w)))) - 50)"
proof -
  note sums = touch_drag_sums [OF assms, of env]
  have b: "button (pointerAt start) = 0" by (simp add: pointerAt_def)
  have keep: "m_startX (fst (mousemoves c d (map pointerAt moves) (mousedown c d (pointerAt start) (menv, w))))
           = clientX (touches start ! 0)
       \<and> m_startY (fst (mousemoves c d (map pointerAt moves) (mousedown c d (pointerAt start) (menv, w))))
           = clientY (touches start ! 0)"
    using mouse_keeps_start [OF b, of c d "map pointerAt moves" menv w] by (simp add: pointerAt_def)
  have nudge: "dx (snd (snd (run c d
                 (TouchStart start # map TouchMove frames @ KeyDown arrowRight # map TouchMove moves)
                 (menv, env, w))))
            = dx (snd (snd (run c d
                 (MouseDown (pointerAt start) # map MouseMove (map pointerAt frames)
                    @ KeyDown arrowRight # map MouseMove (map pointerAt moves))
                 (menv, env, w)))) - 50"
    if f: "\<forall>e\<in>set frames. length (touches e) = 1" and ne: "moves \<noteq> []"
  proof -
    note t = touch_drag_with_nudge [OF assms(1-4) f assms(5) ne, of d menv env]
    note m = mouse_drag_with_nudge [OF ne, of c d start frames menv env w]
    show ?thesis by (simp only: t m)
  qed
  show ?thesis
  proof (intro conjI impI)
    assume "(\<forall>e\<in>set frames. length (touches e) = 1) \<and> moves \<noteq> []"
    then show "dx (snd (snd (run c d
                 (TouchStart start # map TouchMove frames @ KeyDown arrowRight # map TouchMove moves)
                 (menv, env, w))))
            = dx (snd (snd (run c d
                 (MouseDown (pointerAt start) # map MouseMove (map pointerAt frames)
                    @ KeyDown arrowRight # map MouseMove (map pointerAt moves))
                 (menv, env, w)))) - 50"
      using nudge by blast
  qed (use sums keep in blast)+
qed

theorem touch_drag_relative_witness:
  "dx (snd (touchMoves 1 [oneTouch 20 25, oneTouch 40 15] (touchStart 1 (oneTouch 10 10) (tenv0, world0))))
     = 0 + ((20 - 10) + (40 - 20))
 \<and> dy (snd (touchMoves 1 [oneTouch 20 25, oneTouch 40 15] (touchStart 1 (oneTouch 10 10) (tenv0, world0))))
     = 0 + ((25 - 10) + (15 - 25))
 \<and> startX (fst (touchMoves 1 [oneTouch 20 25, oneTouch 40 15] (touchStart 1 (oneTouch 10 10) (tenv0, world0))))
     = 40
 \<and> m_startX (fst (mousemoves 1 2 (map pointerAt [oneTouch 20 25, oneTouch 40 15])
         (mousedown 1 2 (pointerAt (oneTouch 10 10)) (env0, world0)))) = 10
 \<and> dx (snd (snd (run 1 2
         (TouchStart (oneTouch 10 10) # map TouchMove [oneTouch 15 15]
            @ KeyDown arrowRight # map TouchMove [oneTouch 20 25, oneTouch 40 15])
         (env0, tenv0, world0))))
     = dx (snd (snd (run 1 2
         (MouseDown (pointerAt (oneTouch 10 10)) # map MouseMove (map pointerAt [oneTouch 15 15])
            @ KeyDown arrowRight # map MouseMove (map pointerAt [oneTouch 20 25, oneTouch 40 15]))
         (env0, tenv0, world0)))) - 50"
proof -
  have n: "\<not> nativeTouchEventsEnabled world0" and q: "querySelector world0 1 = Some 2"
    by (simp_all add: world0_def)
  have b: "\<not> target_in_button (oneTouch 10 10)" and l: "length (touches (oneTouch 10 10)) = 1"
    by (simp_all add: oneTouch_def)
  have ms: "\<forall>e\<in>set [oneTouch 20 25, oneTouch 40 15]. length (touches e) = 1"
    by (simp add: oneTouch_def)
  have fs: "(\<forall>e\<in>set [oneTouch 15 15]. length (touches e) = 1)
      \<and> [oneTouch 20 25, oneTouch 40 15] \<noteq> []"
    by (simp add: oneTouch_def)
  note th = touch_drag_relative [OF n q b l ms, of tenv0 2 env0 "[oneTouch 15 15]"]
  have a1: "dx (snd (touchMoves 1 [oneTouch 20 25, oneTouch 40 15] (touchStart 1 (oneTouch 10 10) (tenv0, world0))))
     = 0 + ((20 - 10) + (40 - 20))"
    using th by (simp add: world0_def oneTouch_def)
  have a2: "dy (snd (touchMoves 1 [oneTouch 20 25, oneTouch 40 15] (touchStart 1 (oneTouch 10 10) (tenv0, world0))))
     = 0 + ((25 - 10) + (15 - 25))"
    using th by (simp add: world0_def oneTouch_def)
  have a3: "startX (fst (touchMoves 1 [oneTouch 20 25, oneTouch 40 15] (touchStart 1 (oneTouch 10 10) (tenv0, world0))))
     = 40"
    using th by (simp add: oneTouch_def)
  have a4: "m_startX (fst (mousemoves 1 2 (map pointerAt [oneTouch 20 25, oneTouch 40 15])
         (mousedown 1 2 (pointerAt (oneTouch 10 10)) (env0, world0)))) = 10"
    using th by (simp add: oneTouch_def)
  have a5: "dx (snd (snd (run 1 2
         (TouchStart (oneTouch 10 10) # map TouchMove [oneTouch 15 15]
            @ KeyDown arrowRight # map TouchMove [oneTouch 20 25, oneTouch 40 15])
         (env0, tenv0, world0))))
     = dx (snd (snd (run 1 2
         (MouseDown (pointerAt (oneTouch 10 10)) # map MouseMove (map pointerAt [oneTouch 15 15])
            @ KeyDown arrowRight # map MouseMove (map pointerAt [oneTouch 20 25, oneTouch 40 15]))
         (env0, tenv0, world0)))) - 50"
    using th fs by blast
  from a1 a2 a3 a4 a5 show ?thesis by blast
qed

subsection \<open>Touch flags\<close>

lemma touchMove_flags:
  "isDragging (fst (touchMove c e (env, w))) = isDragging env"
  "isPinching (fst (touchMove c e (env, w))) = isPinching env"
  by (simp_all add: touchMove_def Let_def split: option.splits)

lemma touchEnd_flags:
  "isDragging (fst (touchEnd c e (env, w))) \<Longrightarrow> isDragging env"
  "isPinching (fst (touchEnd c e (env, w))) \<Longrightarrow> isPinching env"
  by (simp_all add: touchEnd_def Let_def split: if_splits)

lemma touchStart_flags:
  assumes "\<not> (isDragging env \<and> isPinching env)"
    and "\<not> (isDragging env \<and> length (touches e) = 2)"
    and "\<not> (isPinching env \<and> length (touches e) = 1)"
  shows "\<not> (isDragging (fst (touchStart c e (env, w))) \<and> isPinching (fst (touchStart c e (env, w))))"
  using assms by (auto simp: touchStart_def Let_def split: if_splits)

lemma touch_flags_step:
  assumes "\<not> (isDragging env \<and> isPinching env)"
  shows "\<not> (isDragging (fst (touchMove c e (env, w))) \<and> isPinching (fst (touchMove c e (env, w))))
       \<and> \<not> (isDragging (fst (touchEnd c e (env, w))) \<and> isPinching (fst (touchEnd c e (env, w))))
       \<and> (\<not> (isDragging env \<and> length (touches e) = 2) \<and> \<not> (isPinching env \<and> length (touches e) = 1) \<longrightarrow>
            \<not> (isDragging (fst (touchStart c e (env, w))) \<and> isPinching (fst (touchStart c e (env, w)))))"
  using assms touchMove_flags [of c e env w] touchEnd_flags [of c e env w]
    touchStart_flags [of env e c w]
  by blast

lemma handle_flags:
  assumes "\<not> (isDragging (fst (snd st)) \<and> isPinching (fst (snd st)))"
    and "starts_apart c d [ev] st"
  shows "\<not> (isDragging (fst (snd (handle c d ev st))) \<and> isPinching (fst (snd (handle c d ev st))))"
proof -
  obtain m t w where st: "st = (m, t, w)" by (cases st) auto
  have inv: "\<not> (isDragging t \<and> isPinching t)" using assms(1) by (simp add: st)
  show ?thesis
  proof (cases ev)
    case (TouchStart e)
    have "\<not> (isDragging t \<and> length (touches e) = 2)" "\<not> (isPinching t \<and> length (touches e) = 1)"
      using assms(2) by (simp_all add: st TouchStart)
    with inv have "\<not> (isDragging (fst (touchStart c e (t, w))) \<and> isPinching (fst (touchStart c e (t, w))))"
      by (rule touchStart_flags)
    then show ?thesis by (simp add: st TouchStart case_prod_beta)
  next
    case (TouchMove e)
    then show ?thesis using inv by (simp add: st case_prod_beta touchMove_flags)
  next
    case (TouchEnd e)
    then show ?thesis using inv touchEnd_flags [of c e t w] by (auto simp: st case_prod_beta)
  qed (use inv in \<open>simp_all add: st case_prod_beta\<close>)
qed

text \<open>
  C5 (as amended). From a state in which at most one of \<open>isDragging\<close> and
  \<open>isPinching\<close> is set, at most one of them is set after every sequence of events in
  which no \<open>touchstart\<close> arrives with two touches while \<open>isDragging\<close> is set or with one
  touch while \<open>isPinching\<close> is set. A \<open>touchstart\<close> never clears a flag, so one that
  arrives during a drag with two touches sets \<open>isPinching\<close> beside \<open>isDragging\<close> (the
  counterexample below).
\<close>

theorem touch_flags_exclusive:
  assumes "\<not> (isDragging (fst (snd st)) \<and> isPinching (fst (snd st)))"
    and "starts_apart c d evs st"
  shows "\<not> (isDragging (fst (snd (run c d evs st))) \<and> isPinching (fst (snd (run c d evs st))))"
  using assms
proof (induction evs arbitrary: st)
  case Nil
  then show ?case by (simp add: run_def)
next
  case (Cons ev evs)
  have one: "starts_apart c d [ev] st" using Cons.prems(2) by simp
  have "\<not> (isDragging (fst (snd (handle c d ev st))) \<and> isPinching (fst (snd (handle c d ev st))))"
    using Cons.prems(1) one by (rule handle_flags)
  moreover have "starts_apart c d evs (handle c d ev st)" using Cons.prems(2) by simp
  ultimately have "\<not> (isDragging (fst (snd (run c d evs (handle c d ev st))))
      \<and> isPinching (fst (snd (run c d evs (handle c d ev st)))))"
    by (rule Cons.IH)
  then show ?case by (simp add: run_def)
qed

theorem touch_flags_exclusive_witness:
  "\<not> (isDragging (fst (snd (run 1 2
        [TouchStart (oneTouch 3 4), TouchMove (oneTouch 5 6), TouchEnd (oneTouch 5 6),
         TouchStart \<lparr>touches = [\<lparr>clientX = 0, clientY = 0\<rparr>, \<lparr>clientX = 3, clientY = 4\<rparr>],
                     target_in_button = False\<rparr>]
        (env0, tenv0, world0))))
     \<and> isPinching (fst (snd (run 1 2
        [TouchStart (oneTouch 3 4), TouchMove (oneTouch 5 6), TouchEnd (oneTouch 5 6),
         TouchStart \<lparr>touches = [\<lparr>clientX = 0, clientY = 0\<rparr>, \<lparr>clientX = 3, clientY = 4\<rparr>],
                     target_in_button = False\<rparr>]
        (env0, tenv0, world0)))))"
proof -
  have a: "\<not> (isDragging (fst (snd (env0, tenv0, world0))) \<and> isPinching (fst (snd (env0, tenv0, world0))))"
    by (simp add: tenv0_def)
  have b: "starts_apart 1 2
        [TouchStart (oneTouch 3 4), TouchMove (oneTouch 5 6), TouchEnd (oneTouch 5 6),
         TouchStart \<lparr>touches = [\<lparr>clientX = 0, clientY = 0\<rparr>, \<lparr>clientX = 3, clientY = 4\<rparr>],
                     target_in_button = False\<rparr>]
        (env0, tenv0, world0)"
    by (simp add: touchStart_def touchMove_def touchEnd_def moveElement_def rerender_def
        renderTransform_def Let_def oneTouch_def world0_def tenv0_def)
  show ?thesis using touch_flags_exclusive [OF a b] .
qed

theorem both_flags_counterexample:
  "isDragging (fst (touchStart 1 \<lparr>touches = [\<lparr>clientX = 0, clientY = 0\<rparr>, \<lparr>clientX = 3, clientY = 4\<rparr>], target_in_button = False\<rparr>
      (touchStart 1 \<lparr>touches = [\<lparr>clientX = 0, clientY = 0\<rparr>], target_in_button = False\<rparr> (tenv0, world0))))
 \<and> isPinching (fst (touchStart 1 \<lparr>touches = [\<lparr>clientX = 0, clientY = 0\<rparr>, \<lparr>clientX = 3, clientY = 4\<rparr>], target_in_button = False\<rparr>
      (touchStart 1 \<lparr>touches = [\<lparr>clientX = 0, clientY = 0\<rparr>], target_in_button = False\<rparr> (tenv0, world0))))"
  by (simp add: touchStart_def Let_def world0_def tenv0_def)

subsection \<open>Touch end\<close>

text \<open>
  C8 (as amended). With native touch events disabled, a \<open>touchend\<close> whose target is not
  inside a panel button leaves both \<open>isDragging\<close> and \<open>isPinching\<close> false, whatever
  they were. A \<open>touchend\<close> on a panel button returns before the flags are cleared (the
  counterexample below).
\<close>

theorem touchEnd_clears_flags:
  assumes "\<not> nativeTouchEventsEnabled w" and "\<not> target_in_button e"
  shows "\<not> isDragging (fst (touchEnd c e (env, w))) \<and> \<not> isPinching (fst (touchEnd c e (env, w)))"
  using assms by (simp add: touchEnd_def Let_def)

theorem touchEnd_clears_flags_witness:
  "\<not> isDragging (fst (touchEnd 1 \<lparr>touches = [], target_in_button = False\<rparr>
        (tenv0\<lparr>isDragging := True, isPinching := True\<rparr>, world0)))
 \<and> \<not> isPinching (fst (touchEnd 1 \<lparr>touches = [], target_in_button = False\<rparr>
        (tenv0\<lparr>isDragging := True, isPinching := True\<rparr>, world0)))"
  using touchEnd_clears_flags [of world0 "\<lparr>touches = [], target_in_button = False\<rparr>" 1
      "tenv0\<lparr>isDragging := True, isPinching := True\<rparr>"]
  by (simp add: world0_def)

theorem touchEnd_button_counterexample:
  "\<not> nativeTouchEventsEnabled world0
 \<and> isDragging (fst (touchEnd 1 \<lparr>touches = [], target_in_button = True\<rparr>
        (tenv0\<lparr>isDragging := True\<rparr>, world0)))"
  by (simp add: touchEnd_def Let_def world0_def tenv0_def)

subsection \<open>The active container\<close>

text \<open>
  C9 (as amended). After the handler runs, the active-container reference points to the
  container for: a wheel event with ctrl held, a \<open>mousedown\<close> with the primary button,
  a \<open>mousemove\<close> during a drag, every \<open>mouseup\<close> and \<open>mouseleave\<close>, and every
  \<open>touchstart\<close>, \<open>touchmove\<close>, \<open>touchend\<close> and \<open>scroll\<close> while native touch
  events are disabled. A wheel event without ctrl, a \<open>mousedown\<close> with another button,
  a \<open>mousemove\<close> outside a drag, the four touch handlers while native touch events are
  enabled, and \<open>focusin\<close> and \<open>focusout\<close> leave the reference as it was.
\<close>

theorem active_container_marking:
  "(w_ctrlKey we \<longrightarrow> activeContainer (wheel c d r we w) = Some c)
 \<and> (\<not> w_ctrlKey we \<longrightarrow> activeContainer (wheel c d r we w) = activeContainer w)
 \<and> (button me = 0 \<longrightarrow> activeContainer (snd (mousedown c d me (m, w))) = Some c)
 \<and> (button me \<noteq> 0 \<longrightarrow> activeContainer (snd (mousedown c d me (m, w))) = activeContainer w)
 \<and> (m_isDragging m \<longrightarrow> activeContainer (snd (mousemove c d me (m, w))) = Some c)
 \<and> (\<not> m_isDragging m \<longrightarrow> activeContainer (snd (mousemove c d me (m, w))) = activeContainer w)
 \<and> activeContainer (snd (mouseup c d (m, w))) = Some c
 \<and> activeContainer (snd (mouseleave c d (m, w))) = Some c
 \<and> (\<not> nativeTouchEventsEnabled w \<longrightarrow>
      activeContainer (snd (touchStart c te (t, w))) = Some c
    \<and> activeContainer (snd (touchMove c te (t, w))) = Some c
    \<and> activeContainer (snd (touchEnd c te (t, w))) = Some c
    \<and> activeContainer (scroll c w) = Some c)
 \<and> (nativeTouchEventsEnabled w \<longrightarrow>
      activeContainer (snd (touchStart c te (t, w))) = activeContainer w
    \<and> activeContainer (snd (touchMove c te (t, w))) = activeContainer w
    \<and> activeContainer (snd (touchEnd c te (t, w))) = activeContainer w
    \<and> activeContainer (scroll c w) = activeContainer w)
 \<and> activeContainer (focusin c w) = activeContainer w
 \<and> activeContainer (focusout c w) = activeContainer w"
  by (simp add: wheel_def mousedown_def mousemove_def mouseup_def mouseleave_def touchStart_def
      touchMove_def touchEnd_def scroll_def focusin_def focusout_def renderTransform_def Let_def
      split: option.splits)

theorem active_container_marking_witness:
  "activeContainer (wheel 1 2 \<lparr>rect_left = 0, rect_top = 0\<rparr>
      \<lparr>w_ctrlKey = True, w_clientX = 0, w_clientY = 0, deltaY = 1\<rparr> world0) = Some 1
 \<and> activeContainer (snd (mousedown 1 2 \<lparr>button = 0, m_clientX = 0, m_clientY = 0\<rparr>
      (env0\<lparr>m_isDragging := True\<rparr>, world0))) = Some 1
 \<and> activeContainer (snd (mousemove 1 2 \<lparr>button = 0, m_clientX = 0, m_clientY = 0\<rparr>
      (env0\<lparr>m_isDragging := True\<rparr>, world0))) = Some 1
 \<and> activeContainer (snd (touchEnd 1 (oneTouch 0 0) (tenv0, world0))) = Some 1
 \<and> activeContainer (wheel 1 2 \<lparr>rect_left = 0, rect_top = 0\<rparr>
      \<lparr>w_ctrlKey = False, w_clientX = 0, w_clientY = 0, deltaY = 1\<rparr>
      (world0\<lparr>nativeTouchEventsEnabled := True\<rparr>)) = None
 \<and> activeContainer (snd (mousedown 1 2 \<lparr>button = 2, m_clientX = 0, m_clientY = 0\<rparr>
      (env0, world0\<lparr>nativeTouchEventsEnabled := True\<rparr>))) = None
 \<and> activeContainer (snd (mousemove 1 2 \<lparr>button = 2, m_clientX = 0, m_clientY = 0\<rparr>
      (env0, world0\<lparr>nativeTouchEventsEnabled := True\<rparr>))) = None
 \<and> activeContainer (snd (touchEnd 1 (oneTouch 0 0)
      (tenv0, world0\<lparr>nativeTouchEventsEnabled := True\<rparr>))) = None
 \<and> activeContainer (focusin 1 world0) = None"
  using active_container_marking [of "\<lparr>w_ctrlKey = True, w_clientX = 0, w_clientY = 0, deltaY = 1\<rparr>"
      1 2 "\<lparr>rect_left = 0, rect_top = 0\<rparr>" world0 "\<lparr>button = 0, m_clientX = 0, m_clientY = 0\<rparr>"
      "env0\<lparr>m_isDragging := True\<rparr>" "oneTouch 0 0" tenv0]
    active_container_marking [of "\<lparr>w_ctrlKey = False, w_clientX = 0, w_clientY = 0, deltaY = 1\<rparr>"
      1 2 "\<lparr>rect_left = 0, rect_top = 0\<rparr>" "world0\<lparr>nativeTouchEventsEnabled := True\<rparr>"
      "\<lparr>button = 2, m_clientX = 0, m_clientY = 0\<rparr>" env0 "oneTouch 0 0" tenv0]
  by (simp add: world0_def env0_def)

theorem wheel_without_ctrl_counterexample:
  "activeContainer (wheel 1 2 \<lparr>rect_left = 0, rect_top = 0\<rparr>
      \<lparr>w_ctrlKey = False, w_clientX = 0, w_clientY = 0, deltaY = 1\<rparr> world0) \<noteq> Some 1
 \<and> activeContainer (focusin 1 world0) \<noteq> Some 1"
  by (simp add: wheel_def focusin_def world0_def)

subsection \<open>Pinch factors\<close>

text \<open>
  Two pinch frames of \<^verbatim>\<open>touchMove\<close>, with finger distances \<open>d1\<close> and then \<open>d2\<close>, forward
  the factors \<open>d1 / d0\<close> and \<open>d2 / d1\<close>; a single frame with distance \<open>d2\<close> forwards
  \<open>d2 / d0\<close>, their product. Both leave the same scale when the floor does not act on
  the scale between the two frames.
\<close>

lemma touchMove_pinch_step:
  assumes "\<not> nativeTouchEventsEnabled w" and "querySelector w c = Some el"
    and "isPinching env" and "length (touches e) = 2"
  shows "touchMove c e (env, w) =
    (env\<lparr>initialDistance := calculateDistance (touches e)\<rparr>,
     zoomElement c (calculateDistance (touches e) / initialDistance env) False
       (w\<lparr>activeContainer := Some c\<rparr>))"
  using assms by (simp add: touchMove_def Let_def)

lemma pinch_frames_compose:
  assumes "\<not> nativeTouchEventsEnabled w" and "querySelector w c = Some el"
    and "isPinching env" and "length (touches e1) = 2" and "length (touches e2) = 2"
    and "calculateDistance (touches e1) \<noteq> 0"
    and "0.125 \<le> scale w * (calculateDistance (touches e1) / initialDistance env)"
  shows "scale (snd (touchMove c e2 (touchMove c e1 (env, w))))
       = scale (snd (touchMove c e2 (env, w)))"
proof -
  let ?d0 = "initialDistance env"
  let ?d1 = "calculateDistance (touches e1)"
  let ?d2 = "calculateDistance (touches e2)"
  let ?env1 = "env\<lparr>initialDistance := ?d1\<rparr>"
  let ?w0 = "w\<lparr>activeContainer := Some c\<rparr>"
  let ?w1 = "zoomElement c (?d1 / ?d0) False ?w0"
  have s1: "touchMove c e1 (env, w) = (?env1, ?w1)"
    using assms(1-4) by (rule touchMove_pinch_step)
  have "\<not> nativeTouchEventsEnabled ?w1" using assms(1) by simp
  moreover have "querySelector ?w1 c = Some el" using assms(2) by simp
  moreover have "isPinching ?env1" using assms(3) by simp
  ultimately have s2: "touchMove c e2 (?env1, ?w1) =
      (?env1\<lparr>initialDistance := ?d2\<rparr>,
       zoomElement c (?d2 / initialDistance ?env1) False (?w1\<lparr>activeContainer := Some c\<rparr>))"
    using assms(5) by (rule touchMove_pinch_step)
  have s3: "touchMove c e2 (env, w) =
      (env\<lparr>initialDistance := ?d2\<rparr>, zoomElement c (?d2 / ?d0) False ?w0)"
    using assms(1-3,5) by (rule touchMove_pinch_step)
  have sc1: "scale ?w1 = scale w * (?d1 / ?d0)"
    using assms(7) by simp
  have eq: "scale w * (?d1 / ?d0) * (?d2 / ?d1) = scale w * (?d2 / ?d0)"
    using assms(6) by simp
  have lhs: "scale (snd (touchMove c e2 (touchMove c e1 (env, w))))
      = max 0.125 (scale ?w1 * (?d2 / ?d1))"
    unfolding s1 s2 by simp
  have rhs: "scale (snd (touchMove c e2 (env, w))) = max 0.125 (scale w * (?d2 / ?d0))"
    unfolding s3 by simp
  show ?thesis by (simp only: lhs rhs sc1 eq)
qed

text \<open>
  C10. Applying the zoom primitive with factor \<open>f1\<close> and then with \<open>f2\<close> gives the same
  scale as applying it once with \<open>f1 * f2\<close>, provided the floor does not act on the
  intermediate scale (\<open>scale * f1\<close> is at least \<open>0.125\<close>).
\<close>

theorem pinch_factor_composition:
  assumes "0.125 \<le> scale w * f1"
  shows "scale (zoomElement c f2 k (zoomElement c f1 k w)) = scale (zoomElement c (f1 * f2) k w)"
  using assms by (simp add: max_def mult.assoc)

theorem pinch_factor_composition_witness:
  "scale (zoomElement 1 3 False (zoomElement 1 0.5 False world0)) = 1.5
 \<and> scale (zoomElement 1 (0.5 * 3) False world0) = 1.5"
  using pinch_factor_composition [of world0 "0.5" 1 3 False]
  by (simp add: world0_def)

subsection \<open>The scale floor\<close>

lemma renderTransform_scale [simp]: "scale (renderTransform el w) = scale w"
  by (simp add: renderTransform_def)

lemma at_least_max: "s = max lo x \<Longrightarrow> lo \<le> (s::real)"
  by simp

lemma wheel_scale:
  "scale (wheel c d r e w) =
     (if w_ctrlKey e then max 0.125 (scale w - deltaY e * 0.001) else scale w)"
  by (simp add: wheel_def Let_def)

lemma wheel_floor:
  assumes "0.125 \<le> scale w"
  shows "0.125 \<le> scale (wheel c d r e w)"
proof (cases "w_ctrlKey e")
  case True
  then have "scale (wheel c d r e w) = max 0.125 (scale w - deltaY e * 0.001)"
    by (simp add: wheel_scale)
  then show ?thesis by (rule at_least_max)
next
  case False
  then have "scale (wheel c d r e w) = scale w" by (simp add: wheel_scale)
  then show ?thesis using assms by simp
qed

lemma mouse_scale:
  "scale (snd (mousedown c d e (m, w))) = scale w"
  "scale (snd (mousemove c d e (m, w))) = scale w"
  "scale (snd (mouseup c d (m, w))) = scale w"
  "scale (snd (mouseleave c d (m, w))) = scale w"
  by (simp_all add: mousedown_def mousemove_def mouseup_def mouseleave_def Let_def)

lemma touch_scale:
  "scale (snd (touchStart c e (t, w))) = scale w"
  "scale (snd (touchEnd c e (t, w))) = scale w"
  "scale (scroll c w) = scale w"
  "scale (focusin c w) = scale w"
  "scale (focusout c w) = scale w"
  by (simp_all add: touchStart_def touchEnd_def scroll_def focusin_def focusout_def Let_def)

lemma touchMove_scale:
  "scale (snd (touchMove c e (t, w))) = scale w
 \<or> scale (snd (touchMove c e (t, w))) =
      max 0.125 (scale w * (calculateDistance (touches e) / initialDistance t))"
  by (simp add: touchMove_def Let_def split: option.splits)

lemma touchMove_floor:
  assumes "0.125 \<le> scale w"
  shows "0.125 \<le> scale (snd (touchMove c e (t, w)))"
  using touchMove_scale [of c e t w]
proof
  assume "scale (snd (touchMove c e (t, w))) = scale w"
  then show ?thesis using assms by simp
next
  assume "scale (snd (touchMove c e (t, w))) =
      max 0.125 (scale w * (calculateDistance (touches e) / initialDistance t))"
  then show ?thesis by (rule at_least_max)
qed

lemma keydown_scale:
  "scale (keydown c e w) = scale w
 \<or> scale (keydown c e w) = max 0.125 (scale w * 1.1)
 \<or> scale (keydown c e w) = max 0.125 (scale w * 0.9)
 \<or> scale (keydown c e w) = max 0.125 1"
  by (simp add: keydown_def Let_def)

lemma keydown_floor:
  assumes "0.125 \<le> scale w"
  shows "0.125 \<le> scale (keydown c e w)"
  using keydown_scale [of c e w]
proof (elim disjE)
  assume "scale (keydown c e w) = scale w"
  then show ?thesis using assms by simp
qed (rule at_least_max, assumption)+

lemma handle_floor:
  assumes "0.125 \<le> scale (snd (snd st))"
  shows "0.125 \<le> scale (snd (snd (handle c d ev st)))"
proof -
  obtain m t w where st: "st = (m, t, w)" by (cases st) auto
  have w: "0.125 \<le> scale w" using assms by (simp add: st)
  show ?thesis
  proof (cases ev)
    case (Wheel r e)
    then show ?thesis using wheel_floor [OF w, of c d r e] by (simp add: st)
  next
    case (MouseDown e)
    then show ?thesis using w by (simp add: st case_prod_beta mouse_scale)
  next
    case (MouseMove e)
    then show ?thesis using w by (simp add: st case_prod_beta mouse_scale)
  next
    case MouseUp
    then show ?thesis using w by (simp add: st case_prod_beta mouse_scale)
  next
    case MouseLeave
    then show ?thesis using w by (simp add: st case_prod_beta mouse_scale)
  next
    case (TouchStart e)
    then show ?thesis using w by (simp add: st case_prod_beta touch_scale)
  next
    case (TouchMove e)
    then show ?thesis using touchMove_floor [OF w, of c e t] by (simp add: st case_prod_beta)
  next
    case (TouchEnd e)
    then show ?thesis using w by (simp add: st case_prod_beta touch_scale)
  next
    case Scroll
    then show ?thesis using w by (simp add: st touch_scale)
  next
    case (KeyDown e)
    then show ?thesis using keydown_floor [OF w, of c e] by (simp add: st)
  next
    case FocusIn
    then show ?thesis using w by (simp add: st touch_scale)
  next
    case FocusOut
    then show ?thesis using w by (simp add: st touch_scale)
  qed
qed

lemma run_floor:
  "0.125 \<le> scale (snd (snd st)) \<Longrightarrow> 0.125 \<le> scale (snd (snd (run c d evs st)))"
proof (induction evs arbitrary: st)
  case Nil
  then show ?case by (simp add: run_def)
next
  case (Cons ev evs)
  have "0.125 \<le> scale (snd (snd (handle c d ev st)))"
    using Cons.prems by (rule handle_floor)
  then have "0.125 \<le> scale (snd (snd (run c d evs (handle c d ev st))))"
    by (rule Cons.IH)
  then show ?case by (simp add: run_def)
qed

text \<open>
  Iterating a step that subtracts a positive amount, or multiplies by a factor in
  \<open>[0, 1)\<close>, under a floor \<open>lo\<close>: from some point on the value is the floor.
\<close>

lemma iter_sub:
  fixes g :: "world \<Rightarrow> world" and lo :: real
  assumes g: "\<And>w. scale (g w) = max lo (scale w - delta)"
    and d: "0 < delta" and s: "lo \<le> scale w"
  shows "\<exists>n. \<forall>k\<ge>n. scale ((g ^^ k) w) = lo"
proof -
  have form: "scale ((g ^^ k) w) = max lo (scale w - real k * delta)" for k
  proof (induction k)
    case 0
    show ?case using s by simp
  next
    case (Suc k)
    have "scale ((g ^^ Suc k) w) = max lo (max lo (scale w - real k * delta) - delta)"
      by (simp add: g Suc)
    also have "\<dots> = max lo (scale w - real (Suc k) * delta)"
      using d by (simp add: max_def algebra_simps)
    finally show ?case .
  qed
  obtain n where n: "scale w - lo < real n * delta"
    using reals_Archimedean3 [OF d] by blast
  have "scale ((g ^^ k) w) = lo" if "n \<le> k" for k
  proof -
    have "real n * delta \<le> real k * delta"
      using that d by simp
    then have "scale w - real k * delta \<le> lo" using n by simp
    then show ?thesis by (simp add: form max_def)
  qed
  then show ?thesis by blast
qed

lemma max_mult_step:
  fixes a lo f :: real
  assumes "a * f \<le> a" and "lo * f \<le> lo"
  shows "max lo (max lo a * f) = max lo (a * f)"
proof (cases "lo \<le> a")
  case True
  then have "max lo a = a" by simp
  then show ?thesis by simp
next
  case False
  then have m: "max lo a = lo" by simp
  have "a * f \<le> lo" using False assms(1) by simp
  then have "max lo (a * f) = lo" by simp
  moreover have "max lo (lo * f) = lo" using assms(2) by simp
  ultimately show ?thesis by (simp add: m)
qed

lemma iter_mult:
  fixes g :: "world \<Rightarrow> world" and lo :: real
  assumes g: "\<And>w. scale (g w) = max lo (scale w * f)"
    and lo: "0 < lo" and f0: "0 \<le> f" and f1: "f < 1" and s: "lo \<le> scale w"
  shows "\<exists>n. \<forall>k\<ge>n. scale ((g ^^ k) w) = lo"
proof -
  have pos: "0 < scale w" using s lo by simp
  have form: "scale ((g ^^ k) w) = max lo (scale w * f ^ k)" for k
  proof (induction k)
    case 0
    show ?case using s by simp
  next
    case (Suc k)
    have fk: "0 \<le> scale w * f ^ k" using pos f0 by simp
    have le: "scale w * f ^ k * f \<le> scale w * f ^ k"
      using fk f1 f0 by (simp add: mult_left_le)
    have le2: "lo * f \<le> lo" using f0 f1 lo by simp
    have "scale ((g ^^ Suc k) w) = max lo (max lo (scale w * f ^ k) * f)"
      by (simp add: g Suc)
    also have "\<dots> = max lo (scale w * f ^ k * f)"
      using le le2 by (rule max_mult_step)
    also have "scale w * f ^ k * f = scale w * f ^ Suc k"
      by simp
    finally show ?case .
  qed
  have "0 < lo / scale w" using pos lo by simp
  then obtain n where n: "f ^ n < lo / scale w"
    using real_arch_pow_inv [OF _ f1] by blast
  have "scale ((g ^^ k) w) = lo" if "n \<le> k" for k
  proof -
    have "f ^ k \<le> f ^ n" using that f0 f1 by (simp add: power_decreasing)
    then have "f ^ k < lo / scale w" using n by simp
    then have "scale w * f ^ k < lo" using pos by (simp add: pos_less_divide_eq mult.commute)
    then show ?thesis by (simp add: form max_def)
  qed
  then show ?thesis by blast
qed

lemma keydown_minus_scale:
  "scale (keydown c \<lparr>key = ''-'', ctrlKey = True\<rparr> w) = max 0.125 (scale w * 0.9)"
  by (simp add: keydown_def KEYS_def Let_def)

lemma pinch_bound_step:
  fixes lo s r f :: real
  assumes "0 < lo" and "lo \<le> s" and "0 \<le> r" and "r \<le> f" and "f \<le> 1"
  shows "max lo (max lo (s * r) * f ^ n) \<le> max lo (s * f ^ Suc n)"
proof -
  have f0: "0 \<le> f" using assms(3,4) by simp
  have s0: "0 \<le> s" using assms(1,2) by simp
  have fn: "0 \<le> f ^ n" using f0 by simp
  have fn1: "f ^ n \<le> 1" using f0 assms(5) by (simp add: power_le_one)
  have a: "lo * f ^ n \<le> lo" using assms(1) fn1 by (simp add: mult_left_le)
  have "s * r \<le> s * f" using s0 assms(4) by (simp add: mult_left_mono)
  then have b: "s * r * f ^ n \<le> s * f * f ^ n" using fn by (simp add: mult_right_mono)
  have "max lo (s * r) * f ^ n = max (lo * f ^ n) (s * r * f ^ n)"
    using fn by (simp add: max_mult_distrib_right)
  also have "\<dots> \<le> max lo (s * f * f ^ n)"
    using a b by (rule max.mono)
  finally have "max lo (s * r) * f ^ n \<le> max lo (s * f ^ Suc n)"
    by (simp add: mult.assoc)
  then show ?thesis by simp
qed

lemma touchMoves_pinch_bounds:
  fixes lo :: real
  assumes lo: "lo = 0.125"
    and "\<not> nativeTouchEventsEnabled w" and "querySelector w c = Some el"
    and "isPinching t" and "0 < initialDistance t" and "f \<le> 1" and "lo \<le> scale w"
    and "shrinking f (initialDistance t) frames"
  shows "lo \<le> scale (snd (touchMoves c frames (t, w)))
       \<and> scale (snd (touchMoves c frames (t, w))) \<le> max lo (scale w * f ^ length frames)"
  using assms(2-)
proof (induction frames arbitrary: t w)
  case Nil
  then show ?case by (simp add: touchMoves_def)
next
  case (Cons e es)
  let ?d0 = "initialDistance t"
  let ?d1 = "calculateDistance (touches e)"
  let ?t1 = "t\<lparr>initialDistance := ?d1\<rparr>"
  let ?w1 = "zoomElement c (?d1 / ?d0) False (w\<lparr>activeContainer := Some c\<rparr>)"
  have len: "length (touches e) = 2" and d1: "0 < ?d1" and le: "?d1 \<le> f * ?d0"
    and rest: "shrinking f ?d1 es"
    using Cons.prems(7) by simp_all
  have step: "touchMove c e (t, w) = (?t1, ?w1)"
    using Cons.prems(1-3) len by (rule touchMove_pinch_step)
  have unfold: "touchMoves c (e # es) (t, w) = touchMoves c es (?t1, ?w1)"
    by (simp add: touchMoves_def step)
  have r0: "0 \<le> ?d1 / ?d0" using d1 Cons.prems(4) by simp
  have rf: "?d1 / ?d0 \<le> f" using le Cons.prems(4) by (simp add: pos_divide_le_eq)
  have sc: "scale ?w1 = max lo (scale w * (?d1 / ?d0))"
    by (simp add: lo)
  have lo0: "0 < lo" by (simp add: lo)
  have "\<not> nativeTouchEventsEnabled ?w1" using Cons.prems(1) by simp
  moreover have "querySelector ?w1 c = Some el" using Cons.prems(2) by simp
  moreover have "isPinching ?t1" using Cons.prems(3) by simp
  moreover have "0 < initialDistance ?t1" using d1 by simp
  moreover note Cons.prems(5)
  moreover have "lo \<le> scale ?w1" unfolding sc by (rule max.cobounded1)
  moreover have "shrinking f (initialDistance ?t1) es" using rest by simp
  ultimately have IH: "lo \<le> scale (snd (touchMoves c es (?t1, ?w1)))
       \<and> scale (snd (touchMoves c es (?t1, ?w1))) \<le> max lo (scale ?w1 * f ^ length es)"
    by (rule Cons.IH)
  have bnd: "max lo (scale ?w1 * f ^ length es) \<le> max lo (scale w * f ^ Suc (length es))"
    unfolding sc using lo0 Cons.prems(6) r0 rf Cons.prems(5) by (rule pinch_bound_step)
  have a: "lo \<le> scale (snd (touchMoves c es (?t1, ?w1)))"
    using IH by (rule conjunct1)
  have "scale (snd (touchMoves c es (?t1, ?w1))) \<le> max lo (scale ?w1 * f ^ length es)"
    using IH by (rule conjunct2)
  then have b: "scale (snd (touchMoves c es (?t1, ?w1))) \<le> max lo (scale w * f ^ Suc (length es))"
    using bnd by (rule order_trans)
  from a b show ?case unfolding unfold length_Cons by (rule conjI)
qed

lemma pinch_frames_reach_floor:
  assumes "\<not> nativeTouchEventsEnabled w" and "querySelector w c = Some el"
    and "isPinching t" and "0 < initialDistance t" and "f \<le> 1" and "0.125 \<le> scale w"
    and "shrinking f (initialDistance t) frames"
    and "scale w * f ^ length frames \<le> 0.125"
  shows "scale (snd (touchMoves c frames (t, w))) = 0.125"
proof -
  define lo :: real where "lo = 0.125"
  have lo: "lo = 0.125" by (simp add: lo_def)
  have s: "lo \<le> scale w" using assms(6) by (simp add: lo_def)
  have b: "lo \<le> scale (snd (touchMoves c frames (t, w)))
       \<and> scale (snd (touchMoves c frames (t, w))) \<le> max lo (scale w * f ^ length frames)"
    using lo assms(1-5) s assms(7) by (rule touchMoves_pinch_bounds)
  have "max lo (scale w * f ^ length frames) = lo"
    using assms(8) by (simp add: lo_def)
  with b have "scale (snd (touchMoves c frames (t, w))) = lo" by simp
  then show ?thesis by (simp add: lo_def)
qed

lemma pinch_frames_eventually:
  assumes "\<not> nativeTouchEventsEnabled w" and "querySelector w c = Some el"
    and "isPinching t" and "0 < initialDistance t" and "0 < f" and "f < 1" and "0.125 \<le> scale w"
  shows "\<exists>n. \<forall>frames. n \<le> length frames \<and> shrinking f (initialDistance t) frames \<longrightarrow>
           scale (snd (touchMoves c frames (t, w))) = 0.125"
proof -
  have pos: "0 < scale w" using assms(7) by simp
  then have "0 < 0.125 / scale w" by simp
  then obtain n where n: "f ^ n < 0.125 / scale w"
    using real_arch_pow_inv [OF _ assms(6)] by blast
  have "scale (snd (touchMoves c frames (t, w))) = 0.125"
    if "n \<le> length frames" and "shrinking f (initialDistance t) frames" for frames
  proof -
    have "f ^ length frames \<le> f ^ n"
      using that(1) assms(5,6) by (simp add: power_decreasing)
    then have "f ^ length frames < 0.125 / scale w" using n by simp
    then have "f ^ length frames * scale w < 0.125"
      using pos by (simp only: pos_less_divide_eq)
    then have "scale w * f ^ length frames \<le> 0.125" by (simp add: mult.commute)
    moreover have "f \<le> 1" using assms(6) by simp
    ultimately show ?thesis
      using assms(1-4,7) that(2) by (intro pinch_frames_reach_floor) auto
  qed
  then show ?thesis by blast
qed

text \<open>
  C2. From a scale at or above \<open>0.125\<close>, the scale is at or above \<open>0.125\<close> after every
  sequence of events delivered to the container's handlers (wheel zoom, pinch zoom and
  keyboard zoom among them) in which no pinch frame divides by a stored distance of
  zero. Repeating a zoom-out step brings the scale to exactly \<open>0.125\<close> and keeps it
  there: a ctrl-wheel event with positive \<open>deltaY\<close>, the key \<open>-\<close> with ctrl, the zoom
  primitive with a factor in \<open>[0, 1)\<close>, and the pinch branch of \<^verbatim>\<open>touchMove\<close> on
  frames whose finger distance shrinks by a factor \<open>f < 1\<close> or more from frame to
  frame: every such sequence of enough frames ends at \<open>0.125\<close>, namely as soon as
  \<open>scale * f ^ n\<close> is at most \<open>0.125\<close> for its length \<open>n\<close>.
\<close>

theorem scale_floor:
  assumes "0.125 \<le> scale w"
  shows "(\<forall>evs. pinch_nonzero c d evs (m, t, w) \<longrightarrow>
            0.125 \<le> scale (snd (snd (run c d evs (m, t, w)))))
       \<and> (w_ctrlKey e \<and> 0 < deltaY e \<longrightarrow> (\<exists>n. \<forall>k\<ge>n. scale ((wheel c d r e ^^ k) w) = 0.125))
       \<and> (\<exists>n. \<forall>k\<ge>n. scale ((keydown c \<lparr>key = ''-'', ctrlKey = True\<rparr> ^^ k) w) = 0.125)
       \<and> (0 \<le> f \<and> f < 1 \<longrightarrow> (\<exists>n. \<forall>k\<ge>n. scale ((zoomElement c f False ^^ k) w) = 0.125))
       \<and> (\<not> nativeTouchEventsEnabled w \<and> querySelector w c = Some el \<and> isPinching t
            \<and> 0 < initialDistance t \<and> 0 < f \<and> f < 1 \<longrightarrow>
            (\<exists>n. \<forall>frames. n \<le> length frames \<and> shrinking f (initialDistance t) frames \<longrightarrow>
               scale (snd (touchMoves c frames (t, w))) = 0.125)
          \<and> (\<forall>frames. shrinking f (initialDistance t) frames
                 \<and> scale w * f ^ length frames \<le> 0.125 \<longrightarrow>
               scale (snd (touchMoves c frames (t, w))) = 0.125))"
proof (intro conjI allI impI)
  fix evs
  have "0.125 \<le> scale (snd (snd (m, t, w)))" using assms by simp
  then show "0.125 \<le> scale (snd (snd (run c d evs (m, t, w))))"
    by (rule run_floor)
next
  assume a: "w_ctrlKey e \<and> 0 < deltaY e"
  have "\<And>w. scale (wheel c d r e w) = max 0.125 (scale w - deltaY e * 0.001)"
    using a by (simp add: wheel_scale)
  moreover have "0 < deltaY e * 0.001" using a by simp
  ultimately show "\<exists>n. \<forall>k\<ge>n. scale ((wheel c d r e ^^ k) w) = 0.125"
    using assms by (rule iter_sub)
next
  have "\<And>w. scale (keydown c \<lparr>key = ''-'', ctrlKey = True\<rparr> w) = max 0.125 (scale w * 0.9)"
    by (rule keydown_minus_scale)
  then show "\<exists>n. \<forall>k\<ge>n. scale ((keydown c \<lparr>key = ''-'', ctrlKey = True\<rparr> ^^ k) w) = 0.125"
    by (rule iter_mult) (use assms in simp_all)
next
  assume a: "0 \<le> f \<and> f < 1"
  have "\<And>w. scale (zoomElement c f False w) = max 0.125 (scale w * f)"
    by simp
  then show "\<exists>n. \<forall>k\<ge>n. scale ((zoomElement c f False ^^ k) w) = 0.125"
    by (rule iter_mult) (use a assms in simp_all)
next
  assume a: "\<not> nativeTouchEventsEnabled w \<and> querySelector w c = Some el \<and> isPinching t
            \<and> 0 < initialDistance t \<and> 0 < f \<and> f < 1"
  then show "\<exists>n. \<forall>frames. n \<le> length frames \<and> shrinking f (initialDistance t) frames \<longrightarrow>
               scale (snd (touchMoves c frames (t, w))) = 0.125"
    using assms by (intro pinch_frames_eventually [where el = el]) auto
next
  fix frames
  assume a: "\<not> nativeTouchEventsEnabled w \<and> querySelector w c = Some el \<and> isPinching t
            \<and> 0 < initialDistance t \<and> 0 < f \<and> f < 1"
    and b: "shrinking f (initialDistance t) frames \<and> scale w * f ^ length frames \<le> 0.125"
  have "f \<le> 1" using a by simp
  then show "scale (snd (touchMoves c frames (t, w))) = 0.125"
    using a b assms by (intro pinch_frames_reach_floor [where f = f and el = el]) auto
qed

theorem scale_floor_witness:
  "0.125 \<le> scale (snd (snd (run 1 2
      [TouchMove (twoTouches 0 0 4 0),
       KeyDown \<lparr>key = ''-'', ctrlKey = True\<rparr>,
       Wheel \<lparr>rect_left = 0, rect_top = 0\<rparr>
         \<lparr>w_ctrlKey = True, w_clientX = 0, w_clientY = 0, deltaY = 5000\<rparr>]
      (env0, tenv0\<lparr>isPinching := True, initialDistance := 8\<rparr>, world0))))
 \<and> (\<exists>n. \<forall>k\<ge>n. scale ((wheel 1 2 \<lparr>rect_left = 0, rect_top = 0\<rparr>
         \<lparr>w_ctrlKey = True, w_clientX = 0, w_clientY = 0, deltaY = 5000\<rparr> ^^ k) world0) = 0.125)
 \<and> (\<exists>n. \<forall>k\<ge>n. scale ((keydown 1 \<lparr>key = ''-'', ctrlKey = True\<rparr> ^^ k) world0) = 0.125)
 \<and> (\<exists>n. \<forall>k\<ge>n. scale ((zoomElement 1 0.5 False ^^ k) world0) = 0.125)
 \<and> (\<exists>n. \<forall>frames. n \<le> length frames \<and> shrinking 0.5 8 frames \<longrightarrow>
        scale (snd (touchMoves 1 frames
          (tenv0\<lparr>isPinching := True, initialDistance := 8\<rparr>, world0))) = 0.125)
 \<and> scale (snd (touchMoves 1 [twoTouches 0 0 4 0, twoTouches 0 0 2 0, twoTouches 0 0 1 0]
        (tenv0\<lparr>isPinching := True, initialDistance := 8\<rparr>, world0))) = 0.125"
proof -
  let ?t = "tenv0\<lparr>isPinching := True, initialDistance := 8\<rparr>"
  let ?frames = "[twoTouches 0 0 4 0, twoTouches 0 0 2 0, twoTouches 0 0 1 0]"
  have h: "0.125 \<le> scale world0" by (simp add: world0_def)
  note th = scale_floor [OF h, where c = 1 and d = 2 and m = env0 and t = ?t
      and r = "\<lparr>rect_left = 0, rect_top = 0\<rparr>"
      and e = "\<lparr>w_ctrlKey = True, w_clientX = 0, w_clientY = 0, deltaY = 5000\<rparr>"
      and f = "0.5" and el = 2]
  have pn: "pinch_nonzero 1 2
      [TouchMove (twoTouches 0 0 4 0),
       KeyDown \<lparr>key = ''-'', ctrlKey = True\<rparr>,
       Wheel \<lparr>rect_left = 0, rect_top = 0\<rparr>
         \<lparr>w_ctrlKey = True, w_clientX = 0, w_clientY = 0, deltaY = 5000\<rparr>]
      (env0, ?t, world0)"
    by simp
  have cond: "\<not> nativeTouchEventsEnabled world0 \<and> querySelector world0 1 = Some 2 \<and> isPinching ?t
            \<and> 0 < initialDistance ?t \<and> 0 < (0.5::real) \<and> (0.5::real) < 1"
    by (simp add: world0_def)
  have sh: "shrinking 0.5 (initialDistance ?t) ?frames
      \<and> scale world0 * 0.5 ^ length ?frames \<le> 0.125"
    by (simp add: calculateDistance_def twoTouches_def Let_def world0_def)
  have a: "0.125 \<le> scale (snd (snd (run 1 2
      [TouchMove (twoTouches 0 0 4 0),
       KeyDown \<lparr>key = ''-'', ctrlKey = True\<rparr>,
       Wheel \<lparr>rect_left = 0, rect_top = 0\<rparr>
         \<lparr>w_ctrlKey = True, w_clientX = 0, w_clientY = 0, deltaY = 5000\<rparr>]
      (env0, ?t, world0))))"
    using th pn by blast
  have b: "\<exists>n. \<forall>k\<ge>n. scale ((wheel 1 2 \<lparr>rect_left = 0, rect_top = 0\<rparr>
         \<lparr>w_ctrlKey = True, w_clientX = 0, w_clientY = 0, deltaY = 5000\<rparr> ^^ k) world0) = 0.125"
    using th by simp
  have c: "\<exists>n. \<forall>k\<ge>n. scale ((keydown 1 \<lparr>key = ''-'', ctrlKey = True\<rparr> ^^ k) world0) = 0.125"
    using th by blast
  have d: "\<exists>n. \<forall>k\<ge>n. scale ((zoomElement 1 0.5 False ^^ k) world0) = 0.125"
    using th by simp
  have e0: "\<exists>n. \<forall>frames. n \<le> length frames \<and> shrinking 0.5 (initialDistance ?t) frames \<longrightarrow>
        scale (snd (touchMoves 1 frames (?t, world0))) = 0.125"
    using th cond by blast
  have e: "\<exists>n. \<forall>frames. n \<le> length frames \<and> shrinking 0.5 8 frames \<longrightarrow>
        scale (snd (touchMoves 1 frames (?t, world0))) = 0.125"
    using e0 by simp
  have f: "scale (snd (touchMoves 1 ?frames (?t, world0))) = 0.125"
    using th cond sh by blast
  from a b c d e f show ?thesis by blast
qed

subsection \<open>Binding twice\<close>

lemma registerDomEvent_fields [simp]:
  "classList (registerDomEvent el ty clo p) = classList p"
  "querySelector (registerDomEvent el ty clo p) = querySelector p"
  "closures (registerDomEvent el ty clo p) = closures p"
  "listeners (registerDomEvent el ty clo p) =
     listeners p @ [\<lparr>l_target = el, l_type = ty, l_closure = clo\<rparr>]"
  by (simp_all add: registerDomEvent_def)

lemma fired_registerDomEvent:
  "fired el ty (registerDomEvent el' ty' clo p) =
     fired el ty p @ (if el' = el \<and> ty' = ty then [\<lparr>l_target = el', l_type = ty', l_closure = clo\<rparr>] else [])"
  by (simp add: fired_def)

lemma fired_closures_update [simp]: "fired el ty (p\<lparr>closures := n\<rparr>) = fired el ty p"
  by (simp add: fired_def)

lemma addMouseEvents_bound:
  assumes "addMouseEvents c p = Inr p'"
  shows "\<exists>el. querySelector p' c = Some el \<and> ''events-bound'' \<in> classList p' el"
  using assms by (auto simp: addMouseEvents_def Let_def split: option.splits if_splits)

lemma addMouseEvents_idempotent:
  assumes "addMouseEvents c p = Inr p'"
  shows "addMouseEvents c p' = Inr p'"
  using addMouseEvents_bound [OF assms] by (auto simp: addMouseEvents_def)

lemma addTouchEvents_fired:
  assumes "ty \<in> {''touchstart'', ''touchmove'', ''touchend'', ''scroll''}"
  shows "length (fired c ty (addTouchEvents c p)) = Suc (length (fired c ty p))"
  using assms by (auto simp: addTouchEvents_def Let_def fired_registerDomEvent)

text \<open>
  C6 (the code at the failing input). The container \<open>1\<close> of \<open>page0\<close> is instrumented
  twice: \<^verbatim>\<open>addMouseEvents\<close>, \<^verbatim>\<open>addTouchEvents\<close>, and both again. Each mouse listener
  is attached once, each touch listener twice: \<^verbatim>\<open>addTouchEvents\<close> does not test the
  \<^verbatim>\<open>events-bound\<close> marker.
\<close>

theorem bind_twice_listeners:
  "(case addMouseEvents 1 page0 of
      Inl e \<Rightarrow> None
    | Inr p1 \<Rightarrow>
        (case addMouseEvents 1 (addTouchEvents 1 p1) of
           Inl e \<Rightarrow> None
         | Inr p2 \<Rightarrow>
             Some (map (\<lambda>ty. length (fired 1 ty (addTouchEvents 1 p2)))
               [''wheel'', ''mousedown'', ''mousemove'', ''mouseup'', ''mouseleave'',
                ''touchstart'', ''touchmove'', ''touchend'', ''scroll''])))
   = Some [1, 1, 1, 1, 1, 2, 2, 2, 2]"
  by (simp add: addMouseEvents_def addTouchEvents_def registerDomEvent_def fired_def page0_def Let_def)

end
